theory Spec2Isabelle
  imports Complex_Main
begin

section \<open>Fixed day-segments\<close>

text \<open>
  The three definitions of the local (JST) day-segments, each a list of
  (start hour, end hour) with the end hour excluded:
  \<^item> \<open>DataProcessor.FIXED_TIME_WINDOWS_JST\<close> of \<^verbatim>\<open>data_processor.py\<close>,
  \<^item> \<open>JST_TIME_RANGES\<close> of \<^verbatim>\<open>calculate_intraday_volatility.py\<close>,
  \<^item> the local \<open>jst_time_ranges\<close> of \<^verbatim>\<open>merge_indicators_with_volatility.py\<close>.
\<close>

definition FIXED_TIME_WINDOWS_JST :: "(int \<times> int) list" where
  "FIXED_TIME_WINDOWS_JST = [(0, 3), (3, 6), (7, 9), (9, 12), (12, 15), (15, 21), (21, 24)]"

definition JST_TIME_RANGES :: "(int \<times> int) list" where
  "JST_TIME_RANGES = [(7, 9), (9, 12), (12, 15), (15, 21), (21, 24), (0, 3), (3, 7)]"

definition jst_time_ranges :: "(int \<times> int) list" where
  "jst_time_ranges = [(7, 9), (9, 12), (12, 15), (15, 21), (21, 24), (0, 3), (3, 7)]"

text \<open>Python's \<open>str\<close> of an integer, \<open>str.zfill\<close>, \<open>str.lower\<close> and \<open>in\<close> on strings.\<close>

definition digit_char :: "nat \<Rightarrow> char" where
  "digit_char d = char_of (48 + d)"

fun str_nat :: "nat \<Rightarrow> string" where
  "str_nat n = (if n < 10 then [digit_char n] else str_nat (n div 10) @ [digit_char (n mod 10)])"

declare str_nat.simps [simp del]

definition str_int :: "int \<Rightarrow> string" where
  "str_int i = (if i < 0 then CHR ''-'' # str_nat (nat (- i)) else str_nat (nat i))"

definition zfill :: "nat \<Rightarrow> string \<Rightarrow> string" where
  "zfill w s =
     (case s of
        c # cs \<Rightarrow>
          if c = CHR ''-'' \<or> c = CHR ''+''
          then c # replicate (w - length s) CHR ''0'' @ cs
          else replicate (w - length s) CHR ''0'' @ s
      | [] \<Rightarrow> replicate w CHR ''0'')"

definition lower_char :: "char \<Rightarrow> char" where
  "lower_char c =
     (let n = (of_char c :: nat) in if 65 \<le> n \<and> n \<le> 90 then char_of (n + 32) else c)"

definition lower :: "string \<Rightarrow> string" where
  "lower s = map lower_char s"

fun contains :: "string \<Rightarrow> string \<Rightarrow> bool" where
  "contains sub [] = (sub = [])"
| "contains sub (c # cs) = (take (length sub) (c # cs) = sub \<or> contains sub cs)"

text \<open>
  \<open>get_time_range\<close> of \<^verbatim>\<open>merge_indicators_with_volatility.py\<close>: the label of the
  first segment holding the hour, \<open>None\<close> when no segment does.
\<close>

fun get_time_range_in :: "(int \<times> int) list \<Rightarrow> int \<Rightarrow> string option" where
  "get_time_range_in [] hour = None"
| "get_time_range_in ((start, end) # rest) hour =
     (if start \<le> hour \<and> hour < end
      then Some (zfill 2 (str_int start) @ '':00-'' @ zfill 2 (str_int end) @ '':00'')
      else get_time_range_in rest hour)"

definition get_time_range :: "int \<Rightarrow> string option" where
  "get_time_range hour = get_time_range_in jst_time_ranges hour"

section \<open>Python values\<close>

text \<open>
  A float is a real, an infinity or NaN: finite floats are taken as reals, so rounding
  is not modelled. Python's integers and floats compare by value and are one kind of
  number here.
\<close>

datatype num = Fin real | PosInf | NegInf | NaN

datatype exn = TypeError | KeyError | IndexError | ValueError | ZeroDivisionError

text \<open>
  The values a result dictionary or a table cell holds. \<open>PTime\<close> is a
  \<open>pd.Timestamp\<close> in nanoseconds since the epoch, \<open>PTime None\<close> being \<open>NaT\<close>;
  \<open>PDate\<close> is a \<open>datetime.date\<close> in days since the epoch; \<open>PExn e\<close> stands for the
  text \<open>str(e)\<close> of a caught exception, which the library words.
\<close>

datatype pyval =
    PNone
  | PBool bool
  | PNum num
  | PStr string
  | PTime "int option"
  | PDate int
  | PExn exn

type_synonym pydict = "string \<rightharpoonup> pyval"

text \<open>\<open>d.get(k, default)\<close>.\<close>

definition get :: "pydict \<Rightarrow> string \<Rightarrow> pyval \<Rightarrow> pyval" where
  "get d k dflt = (case d k of None \<Rightarrow> dflt | Some v \<Rightarrow> v)"

fun num_of :: "pyval \<Rightarrow> num option" where
  "num_of (PBool b) = Some (Fin (if b then 1 else 0))"
| "num_of (PNum x) = Some x"
| "num_of _ = None"

text \<open>The truth value of \<open>not v\<close> is the negation of this.\<close>

fun truthy :: "pyval \<Rightarrow> bool" where
  "truthy PNone = False"
| "truthy (PBool b) = b"
| "truthy (PNum (Fin r)) = (r \<noteq> 0)"
| "truthy (PNum _) = True"
| "truthy (PStr s) = (s \<noteq> [])"
| "truthy _ = True"

fun num_pos :: "num \<Rightarrow> bool" where
  "num_pos (Fin r) = (0 < r)"
| "num_pos PosInf = True"
| "num_pos _ = False"

definition num_eq :: "num \<Rightarrow> num \<Rightarrow> bool" where
  "num_eq a b = (a = b \<and> a \<noteq> NaN)"

text \<open>\<open>a == b\<close>: numbers by value (NaN equals nothing), other values within their kind.\<close>

definition py_eq :: "pyval \<Rightarrow> pyval \<Rightarrow> bool" where
  "py_eq a b =
     (case (num_of a, num_of b) of
        (Some x, Some y) \<Rightarrow> num_eq x y
      | (None, None) \<Rightarrow> a = b \<and> a \<noteq> PTime None
      | _ \<Rightarrow> False)"

text \<open>\<open>v > 0\<close>: raises \<open>TypeError\<close> on a value that is not a number.\<close>

definition py_gt0 :: "pyval \<Rightarrow> exn + bool" where
  "py_gt0 v = (case num_of v of None \<Rightarrow> Inl TypeError | Some x \<Rightarrow> Inr (num_pos x))"

definition num_div :: "num \<Rightarrow> num \<Rightarrow> exn + num" where
  "num_div a b =
     (case b of
        Fin y \<Rightarrow>
          if y = 0 then Inl ZeroDivisionError
          else (case a of
                  Fin x \<Rightarrow> Inr (Fin (x / y))
                | PosInf \<Rightarrow> Inr (if 0 < y then PosInf else NegInf)
                | NegInf \<Rightarrow> Inr (if 0 < y then NegInf else PosInf)
                | NaN \<Rightarrow> Inr NaN)
      | NaN \<Rightarrow> Inr NaN
      | _ \<Rightarrow> (case a of Fin x \<Rightarrow> Inr (Fin 0) | _ \<Rightarrow> Inr NaN))"

text \<open>\<open>a / b\<close>: raises \<open>TypeError\<close> unless both are numbers.\<close>

definition py_truediv :: "pyval \<Rightarrow> pyval \<Rightarrow> exn + pyval" where
  "py_truediv a b =
     (case (num_of a, num_of b) of
        (Some x, Some y) \<Rightarrow> (case num_div x y of Inl e \<Rightarrow> Inl e | Inr q \<Rightarrow> Inr (PNum q))
      | _ \<Rightarrow> Inl TypeError)"

text \<open>\<open>np.log\<close>, as it is called on a positive number.\<close>

fun np_log :: "num \<Rightarrow> num" where
  "np_log (Fin r) = (if 0 < r then Fin (ln r) else if r = 0 then NegInf else NaN)"
| "np_log PosInf = PosInf"
| "np_log _ = NaN"

text \<open>A float that may be NaN, as a column holds it, and as a value.\<close>

definition pnum :: "real option \<Rightarrow> pyval" where
  "pnum x = (case x of None \<Rightarrow> PNum NaN | Some r \<Rightarrow> PNum (Fin r))"

text \<open>Comparison and subtraction of such floats: NaN compares false and propagates.\<close>

definition flt :: "real option \<Rightarrow> real option \<Rightarrow> bool" where
  "flt a b = (case (a, b) of (Some x, Some y) \<Rightarrow> x < y | _ \<Rightarrow> False)"

definition fsub :: "real option \<Rightarrow> real option \<Rightarrow> real option" where
  "fsub a b = (case (a, b) of (Some x, Some y) \<Rightarrow> Some (x - y) | _ \<Rightarrow> None)"

section \<open>Tables\<close>

text \<open>
  A pandas \<open>DataFrame\<close> is an ordered list of named columns. A column carries its
  dtype with its values:
  \<^item> \<open>DatetimeS\<close>: \<open>datetime64[ns]\<close>, nanoseconds since the epoch, \<open>None\<close> for NaT;
  \<^item> \<open>FloatS\<close>: \<open>float64\<close>, \<open>None\<close> for NaN;
  \<^item> \<open>IntS\<close>: \<open>int64\<close>;
  \<^item> \<open>ObjS\<close>: an object column of strings;
  \<^item> \<open>DateS\<close>: an object column of \<open>datetime.date\<close>, days since the epoch, \<open>None\<close> for NaT.
\<close>

datatype series =
    DatetimeS "int option list"
  | FloatS "real option list"
  | IntS "int list"
  | ObjS "string list"
  | DateS "int option list"

type_synonym frame = "(string \<times> series) list"

fun slen :: "series \<Rightarrow> nat" where
  "slen (DatetimeS xs) = length xs"
| "slen (FloatS xs) = length xs"
| "slen (IntS xs) = length xs"
| "slen (ObjS xs) = length xs"
| "slen (DateS xs) = length xs"

text \<open>\<open>len(df)\<close>: the number of rows; \<open>pd.DataFrame()\<close> is the table without columns.\<close>

definition nrows :: "frame \<Rightarrow> nat" where
  "nrows df = (case df of [] \<Rightarrow> 0 | (_, s) # _ \<Rightarrow> slen s)"

definition columns :: "frame \<Rightarrow> string list" where
  "columns df = map fst df"

text \<open>Every column of a table has the table's number of rows.\<close>

definition wf_frame :: "frame \<Rightarrow> bool" where
  "wf_frame df = list_all (\<lambda>(n, s). slen s = nrows df) df"

text \<open>\<open>df[name] = s\<close>: replaces the column of that name where it stands, or appends it.\<close>

fun set_col :: "frame \<Rightarrow> string \<Rightarrow> series \<Rightarrow> frame" where
  "set_col [] name s = [(name, s)]"
| "set_col ((n, t) # df) name s =
     (if n = name then (n, s) # df else (n, t) # set_col df name s)"

text \<open>The cells of a column as values.\<close>

fun cells :: "series \<Rightarrow> pyval list" where
  "cells (DatetimeS xs) = map PTime xs"
| "cells (FloatS xs) = map pnum xs"
| "cells (IntS xs) = map (\<lambda>i. PNum (Fin (real_of_int i))) xs"
| "cells (ObjS xs) = map PStr xs"
| "cells (DateS xs) = map (\<lambda>d. case d of None \<Rightarrow> PTime None | Some k \<Rightarrow> PDate k) xs"

text \<open>The rows of a table: each row pairs the column names with its cells.\<close>

definition row_at :: "frame \<Rightarrow> nat \<Rightarrow> (string \<times> pyval) list" where
  "row_at df i = map (\<lambda>(n, s). (n, cells s ! i)) df"

definition rows :: "frame \<Rightarrow> (string \<times> pyval) list list" where
  "rows df = map (row_at df) [0..<nrows df]"

text \<open>\<open>df[bmask]\<close>: the rows where the boolean mask holds, column by column.\<close>

definition pick :: "bool list \<Rightarrow> 'a list \<Rightarrow> 'a list" where
  "pick bmask xs = map snd (filter fst (zip bmask xs))"

fun spick :: "bool list \<Rightarrow> series \<Rightarrow> series" where
  "spick bmask (DatetimeS xs) = DatetimeS (pick bmask xs)"
| "spick bmask (FloatS xs) = FloatS (pick bmask xs)"
| "spick bmask (IntS xs) = IntS (pick bmask xs)"
| "spick bmask (ObjS xs) = ObjS (pick bmask xs)"
| "spick bmask (DateS xs) = DateS (pick bmask xs)"

definition select :: "bool list \<Rightarrow> frame \<Rightarrow> frame" where
  "select bmask df = map (\<lambda>(n, s). (n, spick bmask s)) df"

text \<open>The values of a numeric column; \<open>None\<close> for a column that is not numeric.\<close>

fun numeric :: "series \<Rightarrow> real option list option" where
  "numeric (FloatS xs) = Some xs"
| "numeric (IntS xs) = Some (map (\<lambda>i. Some (real_of_int i)) xs)"
| "numeric _ = None"

definition dropna :: "real option list \<Rightarrow> real list" where
  "dropna xs = map the (filter (\<lambda>x. x \<noteq> None) xs)"

text \<open>\<open>Series.max()\<close> and \<open>Series.min()\<close>: NaN is skipped, and a column without a number gives NaN.\<close>

definition smax :: "real option list \<Rightarrow> real option" where
  "smax xs = (case dropna xs of [] \<Rightarrow> None | v # vs \<Rightarrow> Some (fold max vs v))"

definition smin :: "real option list \<Rightarrow> real option" where
  "smin xs = (case dropna xs of [] \<Rightarrow> None | v # vs \<Rightarrow> Some (fold min vs v))"

text \<open>
  \<open>Series.quantile(q)\<close> with the default linear interpolation: NaN is skipped, and an
  empty column gives NaN.
\<close>

definition quantile :: "real option list \<Rightarrow> real \<Rightarrow> real option" where
  "quantile xs q =
     (let vs = sort (dropna xs); n = length vs in
      if n = 0 then None
      else
        let pos = q * real (n - 1); lo = nat \<lfloor>pos\<rfloor>; frac = pos - real lo in
        Some (if lo + 1 < n then vs ! lo + (vs ! (lo + 1) - vs ! lo) * frac else vs ! lo))"

subsection \<open>Sorting a table by a column\<close>

text \<open>
  \<open>df.sort_values(by=col)\<close>: ascending, missing values last. Where all keys differ
  the order is determined, and that is all the statements below rely on. Among rows
  with equal keys pandas' default sort (quicksort) promises no order, and on longer
  tables does not keep the given one; the model keeps it, so the first and the last
  row of a sorted window with tied timestamps (\<open>start_price\<close>, \<open>end_price\<close>, the
  direction) are those of a stable sort here. The maximum, the minimum and the
  movement do not depend on the order of the rows.
\<close>

datatype skey = KInt int | KReal real | KStr string | KNA

fun sort_keys :: "series \<Rightarrow> skey list" where
  "sort_keys (DatetimeS xs) = map (\<lambda>t. case t of None \<Rightarrow> KNA | Some k \<Rightarrow> KInt k) xs"
| "sort_keys (FloatS xs) = map (\<lambda>x. case x of None \<Rightarrow> KNA | Some r \<Rightarrow> KReal r) xs"
| "sort_keys (IntS xs) = map KInt xs"
| "sort_keys (ObjS xs) = map KStr xs"
| "sort_keys (DateS xs) = map (\<lambda>t. case t of None \<Rightarrow> KNA | Some k \<Rightarrow> KInt k) xs"

fun str_le :: "string \<Rightarrow> string \<Rightarrow> bool" where
  "str_le [] _ = True"
| "str_le (a # as) [] = False"
| "str_le (a # as) (b # bs) = (if a = b then str_le as bs else (of_char a :: nat) < of_char b)"

fun skey_le :: "skey \<Rightarrow> skey \<Rightarrow> bool" where
  "skey_le _ KNA = True"
| "skey_le KNA _ = False"
| "skey_le (KInt a) (KInt b) = (a \<le> b)"
| "skey_le (KReal a) (KReal b) = (a \<le> b)"
| "skey_le (KStr a) (KStr b) = str_le a b"
| "skey_le _ _ = True"

fun insort_by :: "('a \<Rightarrow> 'a \<Rightarrow> bool) \<Rightarrow> 'a \<Rightarrow> 'a list \<Rightarrow> 'a list" where
  "insort_by le x [] = [x]"
| "insort_by le x (y # ys) = (if le x y then x # y # ys else y # insort_by le x ys)"

definition sort_by :: "('a \<Rightarrow> 'a \<Rightarrow> bool) \<Rightarrow> 'a list \<Rightarrow> 'a list" where
  "sort_by le xs = foldr (insort_by le) xs []"

text \<open>The row numbers in sorted order, and the rows taken in that order.\<close>

definition argsort :: "series \<Rightarrow> nat list" where
  "argsort s =
     map snd (sort_by (\<lambda>a b. skey_le (fst a) (fst b)) (zip (sort_keys s) [0..<slen s]))"

definition take_rows :: "nat list \<Rightarrow> 'a list \<Rightarrow> 'a list" where
  "take_rows perm xs = map (\<lambda>i. xs ! i) (filter (\<lambda>i. i < length xs) perm)"

fun stake :: "nat list \<Rightarrow> series \<Rightarrow> series" where
  "stake perm (DatetimeS xs) = DatetimeS (take_rows perm xs)"
| "stake perm (FloatS xs) = FloatS (take_rows perm xs)"
| "stake perm (IntS xs) = IntS (take_rows perm xs)"
| "stake perm (ObjS xs) = ObjS (take_rows perm xs)"
| "stake perm (DateS xs) = DateS (take_rows perm xs)"

definition sort_values :: "frame \<Rightarrow> string \<Rightarrow> frame" where
  "sort_values df col =
     (case map_of df col of
        None \<Rightarrow> df
      | Some s \<Rightarrow> map (\<lambda>(n, t). (n, stake (argsort s) t)) df)"

subsection \<open>Finding columns by name\<close>

text \<open>
  The source finds the time column and the price column of a table by name: the first
  column whose lower-cased name contains \<open>time\<close> or \<open>date\<close>, and the first whose name
  contains \<open>price\<close>.
\<close>

definition is_time_name :: "string \<Rightarrow> bool" where
  "is_time_name col = (contains ''time'' (lower col) \<or> contains ''date'' (lower col))"

definition is_price_name :: "string \<Rightarrow> bool" where
  "is_price_name col = contains ''price'' (lower col)"

definition is_datetime_name :: "string \<Rightarrow> bool" where
  "is_datetime_name col = (contains ''datetime'' (lower col) \<or> contains ''time'' (lower col))"

text \<open>
  \<open>pd.to_datetime\<close> is the library's: the conversion of one value is a parameter
  \<open>conv\<close> of the functions that call it, \<open>Inl\<close> when it raises. A column is converted
  value by value, and raises when a value does.
\<close>

fun conv_all :: "(pyval \<Rightarrow> exn + int option) \<Rightarrow> pyval list \<Rightarrow> exn + int option list" where
  "conv_all conv [] = Inr []"
| "conv_all conv (v # vs) =
     (case conv v of
        Inl e \<Rightarrow> Inl e
      | Inr t \<Rightarrow> (case conv_all conv vs of Inl e \<Rightarrow> Inl e | Inr ts \<Rightarrow> Inr (t # ts)))"

definition to_datetime :: "(pyval \<Rightarrow> exn + int option) \<Rightarrow> series \<Rightarrow> exn + int option list" where
  "to_datetime conv s = conv_all conv (cells s)"

text \<open>
  \<open>pd.to_datetime\<close> without a unit, on the values the tables below hold: integers are
  read as nanoseconds since the epoch, timestamps are kept, a date is its midnight and
  NaN becomes NaT. The parsing of date strings is not part of this instance: it
  answers with an error on every string, where pandas does so only on a string that is
  no date, and it refuses a number that is not whole. The statements that quantify over tables take the conversion as the
  parameter \<open>conv\<close> and hold for each one; this instance serves the concrete tables,
  whose time columns are integers or timestamps.
\<close>

fun epoch_ns :: "pyval \<Rightarrow> exn + int option" where
  "epoch_ns (PTime t) = Inr t"
| "epoch_ns (PNum (Fin r)) = (if r \<in> \<int> then Inr (Some \<lfloor>r\<rfloor>) else Inl ValueError)"
| "epoch_ns (PNum NaN) = Inr None"
| "epoch_ns (PDate d) = Inr (Some (d * 86400000000000))"
| "epoch_ns _ = Inl TypeError"

section \<open>Asymmetric event analysis\<close>

text \<open>
  The functions of \<^verbatim>\<open>asymmetric_analysis.py\<close>. A function that may assign into the
  table it is given returns the table as it is after the call, paired with its result.
\<close>

text \<open>A timestamp moved by a number of minutes; NaT stays NaT.\<close>

definition minute_ns :: int where
  "minute_ns = 60000000000"

definition shift_minutes :: "int option \<Rightarrow> int \<Rightarrow> int option" where
  "shift_minutes t m = (case t of None \<Rightarrow> None | Some x \<Rightarrow> Some (x + m * minute_ns))"

text \<open>\<open>(col >= start_time) & (col <= end_time)\<close> on one timestamp: false on NaT.\<close>

definition in_window :: "int option \<Rightarrow> int option \<Rightarrow> int option \<Rightarrow> bool" where
  "in_window start_time end_time t =
     (case (t, start_time, end_time) of
        (Some x, Some a, Some b) \<Rightarrow> a \<le> x \<and> x \<le> b
      | _ \<Rightarrow> False)"

text \<open>
  \<open>extract_zigzag_window\<close>. A time column that is not of datetime dtype is converted and
  assigned back into the table given. An exception is caught and gives the empty table.
\<close>

definition extract_zigzag_window ::
  "(pyval \<Rightarrow> exn + int option) \<Rightarrow> frame \<Rightarrow> int option \<Rightarrow> int option \<Rightarrow> frame \<times> frame" where
  "extract_zigzag_window conv zigzag_df start_time end_time =
     (case filter is_time_name (columns zigzag_df) of
        [] \<Rightarrow> (zigzag_df, [])
      | time_col # _ \<Rightarrow>
          (case map_of zigzag_df time_col of
             None \<Rightarrow> (zigzag_df, [])
           | Some (DatetimeS ts) \<Rightarrow>
               (zigzag_df, select (map (in_window start_time end_time) ts) zigzag_df)
           | Some s \<Rightarrow>
               (case to_datetime conv s of
                  Inl e \<Rightarrow> (zigzag_df, [])
                | Inr ts \<Rightarrow>
                    (let zigzag_df' = set_col zigzag_df time_col (DatetimeS ts)
                     in (zigzag_df',
                         select (map (in_window start_time end_time) ts) zigzag_df')))))"

definition movement_direction :: "real option \<Rightarrow> real option \<Rightarrow> string" where
  "movement_direction start_price end_price =
     (if flt start_price end_price then ''up''
      else if flt end_price start_price then ''down''
      else ''neutral'')"

definition movement_efficiency :: "real option \<Rightarrow> real option \<Rightarrow> real option" where
  "movement_efficiency net price_movement =
     (if flt (Some 0) price_movement
      then (case (net, price_movement) of
              (Some d, Some m) \<Rightarrow> Some (\<bar>d\<bar> / m)
            | _ \<Rightarrow> None)
      else Some 0)"

text \<open>
  \<open>calculate_price_movement\<close>. The price column is the first column whose name contains
  \<open>price\<close>. On a price column that is not numeric the arithmetic raises; the handler
  returns the dictionary with the error.
\<close>

definition calculate_price_movement :: "frame \<Rightarrow> pydict" where
  "calculate_price_movement zigzag_window =
     (if nrows zigzag_window < 2 then
        [''price_movement'' \<mapsto> PNum (Fin 0),
         ''max_price'' \<mapsto> PNone,
         ''min_price'' \<mapsto> PNone,
         ''start_price'' \<mapsto> PNone,
         ''end_price'' \<mapsto> PNone,
         ''movement_direction'' \<mapsto> PStr ''neutral'']
      else
        case filter is_price_name (columns zigzag_window) of
          [] \<Rightarrow> [''price_movement'' \<mapsto> PNum (Fin 0), ''error'' \<mapsto> PStr ''No price column found'']
        | price_col # _ \<Rightarrow>
            (case Option.bind (map_of zigzag_window price_col) numeric of
               None \<Rightarrow> [''price_movement'' \<mapsto> PNum (Fin 0), ''error'' \<mapsto> PExn TypeError]
             | Some prices \<Rightarrow>
                 (let max_price = smax prices;
                      min_price = smin prices;
                      price_movement = fsub max_price min_price;
                      sorted_data =
                        (case filter is_time_name (columns zigzag_window) of
                           [] \<Rightarrow> zigzag_window
                         | time_col # _ \<Rightarrow> sort_values zigzag_window time_col)
                  in case Option.bind (map_of sorted_data price_col) numeric of
                       Some (p # ps) \<Rightarrow>
                         (let start_price = p;
                              end_price = last (p # ps)
                          in [''price_movement'' \<mapsto> pnum price_movement,
                              ''max_price'' \<mapsto> pnum max_price,
                              ''min_price'' \<mapsto> pnum min_price,
                              ''start_price'' \<mapsto> pnum start_price,
                              ''end_price'' \<mapsto> pnum end_price,
                              ''movement_direction'' \<mapsto>
                                 PStr (movement_direction start_price end_price),
                              ''net_movement'' \<mapsto> pnum (fsub end_price start_price),
                              ''movement_efficiency'' \<mapsto>
                                 pnum (movement_efficiency (fsub end_price start_price)
                                         price_movement)])
                     | _ \<Rightarrow> [''price_movement'' \<mapsto> PNum (Fin 0), ''error'' \<mapsto> PExn IndexError])))"

text \<open>The first and the last timestamp of a sorted time column, converted where needed.\<close>

definition first_last_time ::
  "(pyval \<Rightarrow> exn + int option) \<Rightarrow> series \<Rightarrow> exn + (int option \<times> int option)" where
  "first_last_time conv s =
     (case s of
        DatetimeS (t # ts) \<Rightarrow> Inr (t, last (t # ts))
      | _ \<Rightarrow>
          (case cells s of
             [] \<Rightarrow> Inl IndexError
           | c # cs \<Rightarrow>
               (case conv c of
                  Inl e \<Rightarrow> Inl e
                | Inr a \<Rightarrow> (case conv (last (c # cs)) of Inl e \<Rightarrow> Inl e | Inr b \<Rightarrow> Inr (a, b)))))"

text \<open>\<open>(end_time - start_time).total_seconds() / 60\<close>; NaN when a timestamp is NaT.\<close>

definition time_diff_minutes :: "int option \<Rightarrow> int option \<Rightarrow> real option" where
  "time_diff_minutes start_time end_time =
     (case (start_time, end_time) of
        (Some a, Some b) \<Rightarrow> Some (real_of_int (b - a) / real_of_int minute_ns)
      | _ \<Rightarrow> None)"

definition calculate_movement_speed ::
  "(pyval \<Rightarrow> exn + int option) \<Rightarrow> frame \<Rightarrow> pydict" where
  "calculate_movement_speed conv zigzag_window =
     (if nrows zigzag_window < 2 then [''movement_speed'' \<mapsto> PNum (Fin 0)]
      else
        case (filter is_price_name (columns zigzag_window),
              filter is_time_name (columns zigzag_window)) of
          (price_col # _, time_col # _) \<Rightarrow>
            (let sorted_data = sort_values zigzag_window time_col in
             case map_of sorted_data time_col of
               None \<Rightarrow> [''movement_speed'' \<mapsto> PNum (Fin 0), ''error'' \<mapsto> PExn KeyError]
             | Some tcol \<Rightarrow>
                 (case first_last_time conv tcol of
                    Inl e \<Rightarrow> [''movement_speed'' \<mapsto> PNum (Fin 0), ''error'' \<mapsto> PExn e]
                  | Inr (start_time, end_time) \<Rightarrow>
                      (let diff = time_diff_minutes start_time end_time in
                       if diff = Some 0 then
                         [''movement_speed'' \<mapsto> PNum (Fin 0),
                          ''error'' \<mapsto> PStr ''Zero time difference'']
                       else
                         let movement_results = calculate_price_movement sorted_data;
                             price_movement =
                               get movement_results ''price_movement'' (PNum (Fin 0))
                         in case py_truediv price_movement (pnum diff) of
                              Inl e \<Rightarrow> [''movement_speed'' \<mapsto> PNum (Fin 0), ''error'' \<mapsto> PExn e]
                            | Inr movement_speed \<Rightarrow>
                                (case (if flt (Some 0) diff
                                       then py_truediv
                                              (PNum (Fin (real (nrows sorted_data) - 1)))
                                              (pnum diff)
                                       else Inr (PNum (Fin 0))) of
                                   Inl e \<Rightarrow>
                                     [''movement_speed'' \<mapsto> PNum (Fin 0), ''error'' \<mapsto> PExn e]
                                 | Inr leg_frequency \<Rightarrow>
                                     [''movement_speed'' \<mapsto> movement_speed,
                                      ''time_diff_minutes'' \<mapsto> pnum diff,
                                      ''leg_frequency'' \<mapsto> leg_frequency]))))
        | _ \<Rightarrow> [''movement_speed'' \<mapsto> PNum (Fin 0), ''error'' \<mapsto> PStr ''Missing required columns''])"

record AsymmetricAnalyzer =
  pre_window :: int
  post_windows :: "int list"

text \<open>The constructor: the default post windows stand in for none or an empty list.\<close>

definition AsymmetricAnalyzer_init :: "int \<Rightarrow> int list option \<Rightarrow> AsymmetricAnalyzer" where
  "AsymmetricAnalyzer_init pre post =
     \<lparr>pre_window = pre,
      post_windows = (case post of None \<Rightarrow> [5, 15, 30] | Some [] \<Rightarrow> [5, 15, 30] | Some ws \<Rightarrow> ws)\<rparr>"

text \<open>
  The announcement time of an indicator row, as both analyses read it: \<open>None\<close> when
  the row has no datetime column, \<open>Inl\<close> when the conversion raises.
\<close>

definition event_time_of ::
  "(pyval \<Rightarrow> exn + int option) \<Rightarrow> (string \<times> pyval) list \<Rightarrow> (exn + int option) option" where
  "event_time_of conv indicator_row =
     (case map_of indicator_row ''DateTime_UTC'' of
        Some v \<Rightarrow> Some (conv v)
      | None \<Rightarrow>
          (case filter is_datetime_name (map fst indicator_row) of
             [] \<Rightarrow> None
           | c # _ \<Rightarrow>
               (case map_of indicator_row c of
                  None \<Rightarrow> Some (Inl KeyError)
                | Some v \<Rightarrow> Some (conv v))))"

definition py_len :: "frame \<Rightarrow> pyval" where
  "py_len df = PNum (Fin (real (nrows df)))"

definition analyze_pre_event ::
  "AsymmetricAnalyzer \<Rightarrow> (pyval \<Rightarrow> exn + int option) \<Rightarrow> (string \<times> pyval) list \<Rightarrow> frame
     \<Rightarrow> frame \<times> pydict" where
  "analyze_pre_event self conv indicator_row zigzag_df =
     (case event_time_of conv indicator_row of
        None \<Rightarrow>
          (zigzag_df,
           [''pre_event_valid'' \<mapsto> PBool False, ''error'' \<mapsto> PStr ''No datetime column found''])
      | Some (Inl e) \<Rightarrow> (zigzag_df, [''pre_event_valid'' \<mapsto> PBool False, ''error'' \<mapsto> PExn e])
      | Some (Inr event_time) \<Rightarrow>
          (let pre_start = shift_minutes event_time (- pre_window self);
               (df1, pre_data) = extract_zigzag_window conv zigzag_df pre_start event_time
           in if nrows pre_data < 2 then
                (df1,
                 [''pre_event_valid'' \<mapsto> PBool False,
                  ''pre_event_points'' \<mapsto> py_len pre_data,
                  ''pre_window_minutes'' \<mapsto> PNum (Fin (real_of_int (pre_window self)))])
              else
                let movement_results = calculate_price_movement pre_data;
                    speed_results = calculate_movement_speed conv pre_data;
                    results =
                      [''pre_event_valid'' \<mapsto> PBool True,
                       ''pre_window_minutes'' \<mapsto> PNum (Fin (real_of_int (pre_window self))),
                       ''pre_event_points'' \<mapsto> py_len pre_data,
                       ''pre_event_legs'' \<mapsto> PNum (Fin (real (nrows pre_data) - 1))]
                      ++ movement_results ++ speed_results;
                    last_minute_start = shift_minutes event_time (- 1);
                    (df2, last_minute_data) =
                      extract_zigzag_window conv df1 last_minute_start event_time
                in if 2 \<le> nrows last_minute_data then
                     (let last_min_movement = calculate_price_movement last_minute_data
                      in (df2,
                          results
                            (''pre_event_last_min_movement'' \<mapsto>
                               get last_min_movement ''price_movement'' (PNum (Fin 0)),
                             ''pre_event_last_min_direction'' \<mapsto>
                               get last_min_movement ''movement_direction'' (PStr ''neutral''))))
                   else (df2, results)))"

text \<open>\<open>for k, v in src.items(): results[f'{window_key}_{k}'] = v\<close>.\<close>

definition strip_prefix :: "string \<Rightarrow> string \<Rightarrow> string option" where
  "strip_prefix p s = (if take (length p) s = p then Some (drop (length p) s) else None)"

definition add_prefixed :: "string \<Rightarrow> pydict \<Rightarrow> pydict \<Rightarrow> pydict" where
  "add_prefixed window_key src results =
     (\<lambda>key. case Option.bind (strip_prefix (window_key @ ''_'') key) src of
              Some v \<Rightarrow> Some v
            | None \<Rightarrow> results key)"

fun post_loop ::
  "(pyval \<Rightarrow> exn + int option) \<Rightarrow> int option \<Rightarrow> int list \<Rightarrow> frame \<Rightarrow> pydict \<Rightarrow> frame \<times> pydict" where
  "post_loop conv event_time [] zigzag_df results = (zigzag_df, results)"
| "post_loop conv event_time (minutes # rest) zigzag_df results =
     (let post_end = shift_minutes event_time minutes;
          (df1, post_data) = extract_zigzag_window conv zigzag_df event_time post_end;
          window_key = ''post_'' @ str_int minutes @ ''min''
      in if nrows post_data < 2 then
           post_loop conv event_time rest df1
             (results
                (window_key @ ''_valid'' \<mapsto> PBool False,
                 window_key @ ''_points'' \<mapsto> py_len post_data))
         else
           let movement_results = calculate_price_movement post_data;
               speed_results = calculate_movement_speed conv post_data;
               results1 =
                 results
                   (window_key @ ''_valid'' \<mapsto> PBool True,
                    window_key @ ''_points'' \<mapsto> py_len post_data,
                    window_key @ ''_legs'' \<mapsto> PNum (Fin (real (nrows post_data) - 1)))
           in post_loop conv event_time rest df1
                (add_prefixed window_key speed_results
                   (add_prefixed window_key movement_results results1)))"

definition analyze_post_event ::
  "AsymmetricAnalyzer \<Rightarrow> (pyval \<Rightarrow> exn + int option) \<Rightarrow> (string \<times> pyval) list \<Rightarrow> frame
     \<Rightarrow> frame \<times> pydict" where
  "analyze_post_event self conv indicator_row zigzag_df =
     (case event_time_of conv indicator_row of
        None \<Rightarrow>
          (zigzag_df,
           [''post_event_valid'' \<mapsto> PBool False, ''error'' \<mapsto> PStr ''No datetime column found''])
      | Some (Inl e) \<Rightarrow> (zigzag_df, [''post_event_valid'' \<mapsto> PBool False, ''error'' \<mapsto> PExn e])
      | Some (Inr event_time) \<Rightarrow>
          post_loop conv event_time (post_windows self) zigzag_df
            [''post_event_valid'' \<mapsto> PBool True])"

subsection \<open>Ratios\<close>

definition direction_consistency :: "pyval \<Rightarrow> pyval \<Rightarrow> pyval" where
  "direction_consistency pre_direction post_direction =
     (if py_eq pre_direction (PStr ''neutral'') \<or> py_eq post_direction (PStr ''neutral'')
      then PNum (Fin 0.5)
      else if py_eq pre_direction post_direction then PNum (Fin 1)
      else PNum (Fin 0))"

text \<open>The first loop of \<open>calculate_ratios\<close>: the ratios of the valid post windows.\<close>

fun ratio_loop :: "pydict \<Rightarrow> pyval \<Rightarrow> int list \<Rightarrow> pydict \<Rightarrow> exn + pydict" where
  "ratio_loop post_results pre_movement [] ratios = Inr ratios"
| "ratio_loop post_results pre_movement (minutes # rest) ratios =
     (let window_key = ''post_'' @ str_int minutes @ ''min'' in
      if \<not> truthy (get post_results (window_key @ ''_valid'') (PBool False))
      then ratio_loop post_results pre_movement rest ratios
      else
        let post_movement = get post_results (window_key @ ''_price_movement'') (PNum (Fin 0)) in
        case py_gt0 pre_movement of
          Inl e \<Rightarrow> Inl e
        | Inr pos \<Rightarrow>
            (case (if pos then py_truediv post_movement pre_movement else Inr (PNum PosInf)) of
               Inl e \<Rightarrow> Inl e
             | Inr ratio \<Rightarrow>
                 (let ratios1 = ratios(''ratio_'' @ str_int minutes @ ''min'' \<mapsto> ratio) in
                  case py_gt0 ratio of
                    Inl e \<Rightarrow> Inl e
                  | Inr True \<Rightarrow>
                      ratio_loop post_results pre_movement rest
                        (ratios1(''log_ratio_'' @ str_int minutes @ ''min'' \<mapsto>
                                   PNum (np_log (the (num_of ratio)))))
                  | Inr False \<Rightarrow> ratio_loop post_results pre_movement rest ratios1)))"

text \<open>The second loop: the direction consistency of every post window.\<close>

fun consistency_loop :: "pydict \<Rightarrow> pyval \<Rightarrow> int list \<Rightarrow> pydict \<Rightarrow> pydict" where
  "consistency_loop post_results pre_direction [] ratios = ratios"
| "consistency_loop post_results pre_direction (minutes # rest) ratios =
     (let window_key = ''post_'' @ str_int minutes @ ''min'';
          post_direction =
            get post_results (window_key @ ''_movement_direction'') (PStr ''neutral'')
      in consistency_loop post_results pre_direction rest
           (ratios(''direction_consistency_'' @ str_int minutes @ ''min'' \<mapsto>
                     direction_consistency pre_direction post_direction)))"

text \<open>
  \<open>AsymmetricAnalyzer.calculate_ratios\<close>. It has no handler of its own: a movement that
  is not a number raises out of it.
\<close>

definition calculate_ratios :: "AsymmetricAnalyzer \<Rightarrow> pydict \<Rightarrow> pydict \<Rightarrow> exn + pydict" where
  "calculate_ratios self pre_results post_results =
     (if \<not> truthy (get pre_results ''pre_event_valid'' (PBool False)) then
        Inr [''ratios_valid'' \<mapsto> PBool False, ''error'' \<mapsto> PStr ''Invalid pre-event results'']
      else if \<not> truthy (get post_results ''post_event_valid'' (PBool False)) then
        Inr [''ratios_valid'' \<mapsto> PBool False, ''error'' \<mapsto> PStr ''Invalid post-event results'']
      else
        let pre_movement = get pre_results ''price_movement'' (PNum (Fin 0)) in
        if py_eq pre_movement (PNum (Fin 0)) then
          Inr [''ratios_valid'' \<mapsto> PBool False,
               ''error'' \<mapsto> PStr ''Pre-event movement is zero, cannot calculate ratios'']
        else
          case ratio_loop post_results pre_movement (post_windows self) Map.empty of
            Inl e \<Rightarrow> Inl e
          | Inr ratios \<Rightarrow>
              (let pre_direction = get pre_results ''movement_direction'' (PStr ''neutral'')
               in Inr ((consistency_loop post_results pre_direction (post_windows self) ratios)
                         (''ratios_valid'' \<mapsto> PBool True))))"

subsection \<open>One indicator, and a batch\<close>

text \<open>\<open>for key, value in indicator_row.items(): if key not in combined: combined[key] = value\<close>.\<close>

definition add_missing :: "(string \<times> pyval) list \<Rightarrow> pydict \<Rightarrow> pydict" where
  "add_missing indicator_row combined =
     foldl (\<lambda>m (k, v). if m k = None then m(k \<mapsto> v) else m) combined indicator_row"

definition analyze_indicator ::
  "AsymmetricAnalyzer \<Rightarrow> (pyval \<Rightarrow> exn + int option) \<Rightarrow> (string \<times> pyval) list \<Rightarrow> frame
     \<Rightarrow> frame \<times> (exn + pydict)" where
  "analyze_indicator self conv indicator_row zigzag_df =
     (let (df1, pre_results) = analyze_pre_event self conv indicator_row zigzag_df;
          (df2, post_results) = analyze_post_event self conv indicator_row df1;
          combined_results = pre_results ++ post_results
      in if truthy (get pre_results ''pre_event_valid'' (PBool False))
            \<and> truthy (get post_results ''post_event_valid'' (PBool False))
         then (case calculate_ratios self pre_results post_results of
                 Inl e \<Rightarrow> (df2, Inl e)
               | Inr ratio_results \<Rightarrow>
                   (df2, Inr (add_missing indicator_row (combined_results ++ ratio_results))))
         else (df2, Inr (add_missing indicator_row combined_results)))"

fun batch_loop ::
  "AsymmetricAnalyzer \<Rightarrow> (pyval \<Rightarrow> exn + int option) \<Rightarrow> (string \<times> pyval) list list \<Rightarrow> frame
     \<Rightarrow> pydict list \<Rightarrow> frame \<times> (exn + pydict list)" where
  "batch_loop analyzer conv [] zigzag_df results = (zigzag_df, Inr results)"
| "batch_loop analyzer conv (indicator_row # rest) zigzag_df results =
     (case analyze_indicator analyzer conv indicator_row zigzag_df of
        (df1, Inl e) \<Rightarrow> (df1, Inl e)
      | (df1, Inr analysis_result) \<Rightarrow>
          batch_loop analyzer conv rest df1 (results @ [analysis_result]))"

text \<open>\<open>batch_process_indicators\<close>: the list of result dictionaries stands for the table made of them.\<close>

definition batch_process_indicators ::
  "(pyval \<Rightarrow> exn + int option) \<Rightarrow> frame \<Rightarrow> frame \<Rightarrow> AsymmetricAnalyzer option
     \<Rightarrow> frame \<times> (exn + pydict list)" where
  "batch_process_indicators conv indicators_df zigzag_df analyzer =
     (let analyzer1 = (case analyzer of None \<Rightarrow> AsymmetricAnalyzer_init 5 None | Some a \<Rightarrow> a)
      in batch_loop analyzer1 conv (rows indicators_df) zigzag_df [])"


section \<open>Classification of indicators\<close>

record StatisticalProcessor =
  category_thresholds :: "(real \<times> real) option"
  min_samples :: nat
  target_column :: string

text \<open>
  The category labels: the source's one-character labels for small, medium and large,
  as their UTF-8 bytes.
\<close>

definition label_small :: string where
  "label_small = [CHR 0xE5, CHR 0xB0, CHR 0x8F]"

definition label_medium :: string where
  "label_medium = [CHR 0xE4, CHR 0xB8, CHR 0xAD]"

definition label_large :: string where
  "label_large = [CHR 0xE5, CHR 0xA4, CHR 0xA7]"

text \<open>
  The inner \<open>get_category\<close> of \<open>classify_indicators\<close> (and of
  \<^verbatim>\<open>calculate_indicator_statistics.py\<close>), with the thresholds it closes over.
\<close>

definition get_category :: "real option \<Rightarrow> real option \<Rightarrow> real option \<Rightarrow> string" where
  "get_category q1 q2 x =
     (if flt x q1 then label_small
      else if flt x q2 then label_medium
      else label_large)"

text \<open>
  \<open>StatisticalProcessor.classify_indicators\<close>. The table is copied first and the copy
  gets the category column. A mean column that is not numeric raises inside the
  \<open>try\<close>, and the handler returns the table as it came.
\<close>

definition classify_indicators :: "StatisticalProcessor \<Rightarrow> frame \<Rightarrow> string \<Rightarrow> frame" where
  "classify_indicators self stats_df method =
     (let classified_df = stats_df;
          mean_col = target_column self @ ''_mean''
      in if mean_col \<notin> set (columns classified_df) then stats_df
         else
           case Option.bind (map_of classified_df mean_col) numeric of
             None \<Rightarrow> stats_df
           | Some means \<Rightarrow>
               if method = ''percentile'' then
                 (let (q1, q2) =
                    (case category_thresholds self of
                       None \<Rightarrow> (quantile means 0.33, quantile means 0.67)
                     | Some (a, b) \<Rightarrow> (Some a, Some b))
                  in set_col classified_df ''Volatility_Category''
                       (ObjS (map (get_category q1 q2) means)))
               else if method = ''absolute'' then
                 (let (q1, q2) =
                    (case category_thresholds self of
                       None \<Rightarrow> (Some 0.0005, Some 0.001)
                     | Some (a, b) \<Rightarrow> (Some a, Some b))
                  in set_col classified_df ''Volatility_Category''
                       (ObjS (map (get_category q1 q2) means)))
               else stats_df)"

section \<open>Daily volatility of the fixed day-segments\<close>

text \<open>
  \<open>DataProcessor._calculate_daily_fixed_window_volatility\<close> of \<^verbatim>\<open>data_processor.py\<close>.
  Of the processor only its pivot table \<open>self.zigzag_df\<close> matters here, \<open>None\<close> before it
  is loaded. The function assigns into that table, so it returns the table as it is
  after the call; it has no handler, so an exception leaves it.
\<close>

definition hour_ns :: int where
  "hour_ns = 3600000000000"

definition day_ns :: int where
  "day_ns = 86400000000000"

text \<open>\<open>.dt.date\<close>: the calendar day of a timestamp.\<close>

definition date_of :: "int option \<Rightarrow> int option" where
  "date_of t = (case t of None \<Rightarrow> None | Some x \<Rightarrow> Some (x div day_ns))"

text \<open>\<open>Series.unique()\<close>: the distinct values in the order of their first appearance.\<close>

definition unique :: "'a list \<Rightarrow> 'a list" where
  "unique xs = rev (remdups (rev xs))"

text \<open>The format \<open>{h:02}\<close> of an hour.\<close>

definition fmt02 :: "int \<Rightarrow> string" where
  "fmt02 h = zfill 2 (str_int h)"

definition volatility_col_name :: "int \<Rightarrow> int \<Rightarrow> string" where
  "volatility_col_name start_hour end_hour =
     ''Volatility_'' @ fmt02 start_hour @ ''_'' @ fmt02 end_hour @ ''_JST''"

text \<open>
  The mask of the inner loop on one row, \<open>t\<close> its \<open>start_time_jst\<close> and \<open>d\<close> its
  \<open>date_jst\<close>: \<open>(t >= window_start_dt) & (t < window_end_dt) & (d == date_val)\<close>.
  A comparison with NaT is false, so the mask is false on a row without a timestamp,
  and on every row when the date itself is NaT (the date of the rows without a
  timestamp, which \<open>unique\<close> lists like any other).
\<close>

definition window_mask :: "int option \<Rightarrow> int \<Rightarrow> int \<Rightarrow> int option \<Rightarrow> int option \<Rightarrow> bool" where
  "window_mask date_val start_hour end_hour t d =
     (case date_val of
        None \<Rightarrow> False
      | Some day \<Rightarrow>
          (let window_start_dt = day * day_ns + start_hour * hour_ns;
               window_end_dt = day * day_ns + end_hour * hour_ns
           in (case t of
                 None \<Rightarrow> False
               | Some x \<Rightarrow> window_start_dt \<le> x \<and> x < window_end_dt)
              \<and> d = Some day))"

text \<open>
  The body of the inner loop: the cell of one date and one day-segment. \<open>max\<close> and
  \<open>min\<close> of a column skip NaN and are NaN when nothing is left.
\<close>

fun window_volatility ::
  "frame \<Rightarrow> int option \<Rightarrow> int \<times> int \<Rightarrow> exn + (string \<times> real option)" where
  "window_volatility df date_val (start_hour, end_hour) =
     (let col_name = volatility_col_name start_hour end_hour
      in case (map_of df ''start_time_jst'', map_of df ''date_jst'') of
           (Some (DatetimeS ts), Some (DateS ds)) \<Rightarrow>
             (let bmask = map (\<lambda>(t, d). window_mask date_val start_hour end_hour t d) (zip ts ds);
                  window_data = select bmask df
              in if nrows window_data \<noteq> 0 \<and> ''start_price'' \<in> set (columns window_data) then
                   (if 1 \<le> nrows window_data then
                      (case Option.bind (map_of window_data ''start_price'') numeric of
                         None \<Rightarrow> Inl TypeError
                       | Some prices \<Rightarrow>
                           (let high_price = smax prices;
                                low_price = smin prices
                            in Inr (col_name, fsub high_price low_price)))
                    else Inr (col_name, None))
                 else Inr (col_name, None))
         | _ \<Rightarrow> Inl KeyError)"

fun daily_data_row ::
  "frame \<Rightarrow> int option \<Rightarrow> (int \<times> int) list \<Rightarrow> exn + (string \<times> real option) list" where
  "daily_data_row df date_val [] = Inr []"
| "daily_data_row df date_val (w # ws) =
     (case window_volatility df date_val w of
        Inl e \<Rightarrow> Inl e
      | Inr c \<Rightarrow>
          (case daily_data_row df date_val ws of
             Inl e \<Rightarrow> Inl e
           | Inr cs \<Rightarrow> Inr (c # cs)))"

text \<open>The outer loop: one row per date, the date NaT among them when it occurs.\<close>

fun daily_rows ::
  "frame \<Rightarrow> int option list \<Rightarrow> exn + (int option \<times> (string \<times> real option) list) list" where
  "daily_rows df [] = Inr []"
| "daily_rows df (date_val # dates) =
     (case daily_data_row df date_val FIXED_TIME_WINDOWS_JST of
        Inl e \<Rightarrow> Inl e
      | Inr r \<Rightarrow>
          (case daily_rows df dates of
             Inl e \<Rightarrow> Inl e
           | Inr rs \<Rightarrow> Inr ((date_val, r) # rs)))"

text \<open>
  The result is the list of rows (date, cells); the empty list stands for the empty
  table. A cell is \<open>None\<close> for NaN, a date is \<open>None\<close> for NaT.
\<close>

definition calculate_daily_fixed_window_volatility ::
  "(pyval \<Rightarrow> exn + int option) \<Rightarrow> frame option
     \<Rightarrow> frame option \<times> (exn + (int option \<times> (string \<times> real option) list) list)" where
  "calculate_daily_fixed_window_volatility conv zigzag_df =
     (case zigzag_df of
        None \<Rightarrow> (None, Inr [])
      | Some df \<Rightarrow>
          (if ''start_time_jst'' \<notin> set (columns df) \<or> ''start_price'' \<notin> set (columns df)
           then (Some df, Inr [])
           else
             (let converted =
                    (case map_of df ''start_time_jst'' of
                       None \<Rightarrow> Inl KeyError
                     | Some (DatetimeS ts) \<Rightarrow> Inr (df, ts)
                     | Some s \<Rightarrow>
                         (case to_datetime conv s of
                            Inl e \<Rightarrow> Inl e
                          | Inr ts \<Rightarrow> Inr (set_col df ''start_time_jst'' (DatetimeS ts), ts)))
              in (case converted of
                    Inl e \<Rightarrow> (Some df, Inl e)
                  | Inr (df1, ts) \<Rightarrow>
                      (let df2 = set_col df1 ''date_jst'' (DateS (map date_of ts));
                           all_dates = unique (map date_of ts)
                       in if length all_dates = 0 then (Some df2, Inr [])
                          else (Some df2, daily_rows df2 all_dates))))))"

section \<open>Propagation between time scales\<close>

text \<open>\<open>MultiscaleAnalyzer\<close> of \<^verbatim>\<open>multiscale_analysis.py\<close> and its constructor.\<close>

record MultiscaleAnalyzer =
  time_scales :: "int list"
  reference_scale :: int

definition MultiscaleAnalyzer_init :: "int list option \<Rightarrow> int \<Rightarrow> MultiscaleAnalyzer" where
  "MultiscaleAnalyzer_init scales ref =
     (let ts = (case scales of None \<Rightarrow> [5, 15, 30, 60] | Some [] \<Rightarrow> [5, 15, 30, 60] | Some xs \<Rightarrow> xs)
      in \<lparr>time_scales = (if ref \<in> set ts then ts else sort (ts @ [ref])),
          reference_scale = ref\<rparr>)"

text \<open>
  A row of the result. The correlation and the regression are \<open>scipy.stats\<close> calls;
  the row keeps the two samples each call is given. The mean growth ratio is computed,
  and rounded to 4 places as the result table is.
\<close>

record propagation_row =
  smaller_scale :: int
  larger_scale :: int
  count :: nat
  pearsonr_samples :: "real list \<times> real list"
  avg_growth_ratio :: "real option"
  linregress_samples :: "real list \<times> real list"

text \<open>Rounding to \<open>d\<close> decimals, halves to the even neighbour.\<close>

definition round_half_even :: "real \<Rightarrow> int" where
  "round_half_even x =
     (let f = \<lfloor>x\<rfloor>; r = x - real_of_int f
      in if r < 1 / 2 then f else if 1 / 2 < r then f + 1 else if even f then f else f + 1)"

definition np_round :: "nat \<Rightarrow> real option \<Rightarrow> real option" where
  "np_round d x =
     (case x of None \<Rightarrow> None
      | Some r \<Rightarrow> Some (real_of_int (round_half_even (r * 10 ^ d)) / 10 ^ d))"

text \<open>\<open>notna\<close> of a column, and \<open>np.mean\<close> of a column, which skips NaN.\<close>

fun notna :: "series \<Rightarrow> bool list" where
  "notna (DatetimeS xs) = map (\<lambda>x. x \<noteq> None) xs"
| "notna (FloatS xs) = map (\<lambda>x. x \<noteq> None) xs"
| "notna (IntS xs) = map (\<lambda>x. True) xs"
| "notna (ObjS xs) = map (\<lambda>x. True) xs"
| "notna (DateS xs) = map (\<lambda>x. x \<noteq> None) xs"

definition np_mean :: "real option list \<Rightarrow> real option" where
  "np_mean xs = (case dropna xs of [] \<Rightarrow> None | vs \<Rightarrow> Some (sum_list vs / real (length vs)))"

text \<open>\<open>larger / smaller.replace(0, np.nan)\<close>, row by row.\<close>

definition growth_ratios :: "real list \<Rightarrow> real list \<Rightarrow> real option list" where
  "growth_ratios smaller larger =
     map (\<lambda>(x, y). if x = 0 then None else Some (y / x)) (zip smaller larger)"

text \<open>
  \<open>stats.linregress(x, y)\<close> raises \<open>ValueError\<close> when all values of \<open>x\<close> are
  identical (\<open>np.amax(x) == np.amin(x) and len(x) > 1\<close>); \<open>stats.pearsonr\<close> returns,
  with NaN, on such a sample.
\<close>

definition linregress_raises :: "real option list \<Rightarrow> bool" where
  "linregress_raises xs \<longleftrightarrow> smax xs = smin xs \<and> 1 < length xs"

text \<open>
  The body of the loop of \<open>analyze_propagation_effects\<close> for one pair of adjacent
  scales: \<open>Inr None\<close> when the pair is skipped, \<open>Inl\<close> when the statistics raise, on a
  column that is not numeric or on a constant column of the smaller scale.
\<close>

definition movement_col :: "int \<Rightarrow> string" where
  "movement_col scale = ''post_'' @ str_int scale @ ''min_price_movement''"

fun propagation_pair :: "frame \<Rightarrow> int \<times> int \<Rightarrow> exn + propagation_row option" where
  "propagation_pair analyzed_df (smaller, larger) =
     (let smaller_col = movement_col smaller;
          larger_col = movement_col larger
      in case (map_of analyzed_df smaller_col, map_of analyzed_df larger_col) of
           (Some s, Some l) \<Rightarrow>
             (let bmask = map (\<lambda>(a, b). a \<and> b) (zip (notna s) (notna l));
                  valid_data = select bmask analyzed_df
              in if nrows valid_data < 5 then Inr None
                 else
                   case (Option.bind (map_of valid_data smaller_col) numeric,
                         Option.bind (map_of valid_data larger_col) numeric) of
                     (Some xs, Some ys) \<Rightarrow>
                       if linregress_raises xs then Inl ValueError
                       else
                         Inr (Some
                           \<lparr>smaller_scale = smaller,
                            larger_scale = larger,
                            count = nrows valid_data,
                            pearsonr_samples = (dropna xs, dropna ys),
                            avg_growth_ratio =
                              np_round 4 (np_mean (growth_ratios (dropna xs) (dropna ys))),
                            linregress_samples = (dropna xs, dropna ys)\<rparr>)
                   | _ \<Rightarrow> Inl TypeError)
         | _ \<Rightarrow> Inr None)"

fun propagation_loop ::
  "frame \<Rightarrow> (int \<times> int) list \<Rightarrow> propagation_row list \<Rightarrow> exn + propagation_row list" where
  "propagation_loop analyzed_df [] results = Inr results"
| "propagation_loop analyzed_df (pr # rest) results =
     (case propagation_pair analyzed_df pr of
        Inl e \<Rightarrow> Inl e
      | Inr None \<Rightarrow> propagation_loop analyzed_df rest results
      | Inr (Some r) \<Rightarrow> propagation_loop analyzed_df rest (results @ [r]))"

text \<open>
  \<open>analyze_propagation_effects\<close>: the pairs are the neighbours in \<open>time_scales\<close>; an
  exception at any pair is caught and gives the empty table, the rows of the pairs
  before it lost.
\<close>

definition analyze_propagation_effects :: "MultiscaleAnalyzer \<Rightarrow> frame \<Rightarrow> propagation_row list" where
  "analyze_propagation_effects self analyzed_df =
     (case propagation_loop analyzed_df (zip (time_scales self) (tl (time_scales self))) [] of
        Inl e \<Rightarrow> []
      | Inr results \<Rightarrow> results)"

section \<open>Predicates used in the statements\<close>

text \<open>
  The time column of a table, the first column whose name contains \<open>time\<close> or
  \<open>date\<close>, is of datetime dtype already (or the table has no such column).
\<close>

definition time_column_is_datetime :: "frame \<Rightarrow> bool" where
  "time_column_is_datetime df =
     (case filter is_time_name (columns df) of
        [] \<Rightarrow> True
      | time_col # _ \<Rightarrow> (case map_of df time_col of Some (DatetimeS _) \<Rightarrow> True | _ \<Rightarrow> False))"

text \<open>
  The \<open>start_price\<close> of the pivots whose start time lies in the day-segment \<open>w\<close> of
  the date \<open>d\<close>, from the segment's start up to but excluding its end, in the order
  of the table; \<open>None\<close> is a missing price.
\<close>

definition segment_prices ::
  "int \<Rightarrow> int \<times> int \<Rightarrow> int option list \<Rightarrow> real option list \<Rightarrow> real option list" where
  "segment_prices d w ts prices =
     (case w of (s, e) \<Rightarrow>
        map snd (filter (\<lambda>(t, p). case t of
                                    None \<Rightarrow> False
                                  | Some x \<Rightarrow> d * day_ns + s * hour_ns \<le> x
                                               \<and> x < d * day_ns + e * hour_ns)
                   (zip ts prices)))"

text \<open>
  The rows of two columns where both values are present, as pairs (value at the smaller
  scale, value at the larger scale).
\<close>

definition both_present :: "real option list \<Rightarrow> real option list \<Rightarrow> (real \<times> real) list" where
  "both_present xs ys =
     map (\<lambda>(x, y). (the x, the y)) (filter (\<lambda>(x, y). x \<noteq> None \<and> y \<noteq> None) (zip xs ys))"

text \<open>The value of a decimal digit, to read \<open>str_nat\<close> back.\<close>

definition digit_val :: "char \<Rightarrow> nat" where
  "digit_val c = of_char c - 48"

section \<open>Properties of the day-segments\<close>

lemma JST_TIME_RANGES_partition:
  "\<forall>h \<in> {0..23}. length [(s, e) \<leftarrow> JST_TIME_RANGES. s \<le> h \<and> h < e] = 1"
  by (auto simp: JST_TIME_RANGES_def)

lemma jst_time_ranges_partition:
  "\<forall>h \<in> {0..23}. length [(s, e) \<leftarrow> jst_time_ranges. s \<le> h \<and> h < e] = 1"
  by (auto simp: jst_time_ranges_def)

lemma get_time_range_total:
  assumes "0 \<le> h" and "h \<le> 23"
  shows "get_time_range h \<noteq> None"
  using assms by (auto simp: get_time_range_def jst_time_ranges_def)

text \<open>
  C2. The day-segments are meant to partition the 24-hour local day: every hour of
  0..23 lies in exactly one segment. The two lemmas above show it for
  \<open>JST_TIME_RANGES\<close> and \<open>jst_time_ranges\<close>. \<open>FIXED_TIME_WINDOWS_JST\<close> has (3, 6)
  where the other two have (3, 7): no segment of it holds hour 6.
\<close>

theorem FIXED_TIME_WINDOWS_JST_misses_hour_6:
  "[(s, e) \<leftarrow> FIXED_TIME_WINDOWS_JST. s \<le> 6 \<and> 6 < e] = []"
  by (simp add: FIXED_TIME_WINDOWS_JST_def)

section \<open>Properties of the classification\<close>

lemma map_of_set_col_same: "map_of (set_col df name s) name = Some s"
  by (induction df) auto

lemma classify_scenario:
  "map (get_category (Some 1) (Some 2)) [Some 0.5, Some 1, Some 1.5, Some 2, Some 2.5]
     = [label_small, label_medium, label_medium, label_large, label_large]"
  by (simp add: get_category_def flt_def)

text \<open>
  C6. With thresholds \<open>q1 \<le> q2\<close> supplied, either classification method gives the
  table a category column that holds, for every mean value, the label for small when
  the value is strictly below \<open>q1\<close>, the label for medium when it is at or above \<open>q1\<close>
  and strictly below \<open>q2\<close>, and the label for large otherwise (a value on a threshold
  falls in the upper category).
\<close>

theorem classify_indicators_categories:
  assumes "q1 \<le> q2"
    and "category_thresholds self = Some (q1, q2)"
    and "method = ''percentile'' \<or> method = ''absolute''"
    and "map_of stats_df (target_column self @ ''_mean'') = Some (FloatS means)"
  shows "map_of (classify_indicators self stats_df method) ''Volatility_Category'' =
           Some (ObjS (map (\<lambda>m. case m of
                                   None \<Rightarrow> label_large
                                 | Some x \<Rightarrow>
                                     if x < q1 then label_small
                                     else if q1 \<le> x \<and> x < q2 then label_medium
                                     else label_large) means))"
proof -
  have in_cols: "target_column self @ ''_mean'' \<in> set (columns stats_df)"
    using assms(4) by (metis columns_def domI dom_map_of_conv_image_fst set_map)
  have cat: "get_category (Some q1) (Some q2) m =
               (case m of None \<Rightarrow> label_large
                | Some x \<Rightarrow> if x < q1 then label_small
                            else if q1 \<le> x \<and> x < q2 then label_medium else label_large)" for m
    by (cases m) (auto simp: get_category_def flt_def)
  show ?thesis
    using assms(3) in_cols
    by (auto simp: classify_indicators_def assms(2) assms(4) map_of_set_col_same cat)
qed

theorem classify_indicators_categories_witness:
  "map_of (classify_indicators
             \<lparr>category_thresholds = Some (1, 2), min_samples = 5, target_column = ''v''\<rparr>
             [(''v_mean'', FloatS [Some 0.5, Some 1, Some 1.5, Some 2, Some 2.5])]
             ''absolute'') ''Volatility_Category''
     = Some (ObjS [label_small, label_medium, label_medium, label_large, label_large])"
  using classify_indicators_categories
    [of 1 2 "\<lparr>category_thresholds = Some (1, 2), min_samples = 5, target_column = ''v''\<rparr>"
        "''absolute''" "[(''v_mean'', FloatS [Some 0.5, Some 1, Some 1.5, Some 2, Some 2.5])]"
        "[Some 0.5, Some 1, Some 1.5, Some 2, Some 2.5]"]
  by simp

section \<open>Properties of tables\<close>

lemma pick_map: "pick m (map f xs) = map f (pick m xs)"
proof -
  have "zip m (map f xs) = map (\<lambda>(a, b). (a, f b)) (zip m xs)"
    by (simp add: zip_map2)
  then show ?thesis
    by (simp add: pick_def filter_map comp_def case_prod_unfold)
qed

lemma pick_Nil [simp]: "pick m [] = []"
  by (simp add: pick_def)

lemma pick_map_self: "pick (map Q xs) xs = filter Q xs"
  by (induction xs) (auto simp: pick_def)

lemma pick_map_nth:
  assumes "length xs = n"
  shows "pick m xs = map (\<lambda>i. xs ! i) (pick m [0..<n])"
proof -
  have "map (\<lambda>i. xs ! i) [0..<n] = xs"
    using assms map_nth [of xs] by simp
  moreover have "pick m (map (\<lambda>i. xs ! i) [0..<n]) = map (\<lambda>i. xs ! i) (pick m [0..<n])"
    by (rule pick_map)
  ultimately show ?thesis
    by simp
qed

lemma slen_cells: "slen s = length (cells s)"
  by (cases s) simp_all

lemma cells_spick: "cells (spick m s) = pick m (cells s)"
  by (cases s) (simp_all add: pick_map)

lemma columns_select [simp]: "columns (select m df) = columns df"
  by (simp add: columns_def select_def comp_def case_prod_unfold)

lemma map_of_select: "map_of (select m df) c = map_option (spick m) (map_of df c)"
  unfolding select_def by (induction df) auto

lemma wf_frame_slen:
  assumes "wf_frame df" and "(c, s) \<in> set df"
  shows "slen s = nrows df"
  using assms by (auto simp: wf_frame_def list_all_iff)

lemma wf_frame_map_of:
  assumes "wf_frame df" and "map_of df c = Some s"
  shows "slen s = nrows df"
  using assms wf_frame_slen map_of_SomeD by fastforce

lemma nrows_select:
  assumes "wf_frame df"
  shows "nrows (select m df) = length (pick m [0..<nrows df])"
proof (cases df)
  case Nil
  then show ?thesis by (simp add: nrows_def select_def)
next
  case (Cons a df')
  obtain c s where a: "a = (c, s)" by (cases a)
  have "length (cells s) = nrows df"
    using Cons a by (simp add: nrows_def slen_cells)
  then have "pick m (cells s) = map (\<lambda>i. cells s ! i) (pick m [0..<nrows df])"
    by (rule pick_map_nth)
  then show ?thesis
    using Cons a by (simp add: nrows_def select_def slen_cells cells_spick)
qed

lemma row_at_select:
  assumes wf: "wf_frame df" and j: "j < length (pick m [0..<nrows df])"
  shows "row_at (select m df) j = row_at df (pick m [0..<nrows df] ! j)"
proof -
  have "cells (spick m s) ! j = cells s ! (pick m [0..<nrows df] ! j)" if "(c, s) \<in> set df" for c s
  proof -
    have "length (cells s) = nrows df"
      using wf that wf_frame_slen slen_cells by metis
    then have "pick m (cells s) = map (\<lambda>i. cells s ! i) (pick m [0..<nrows df])"
      by (rule pick_map_nth)
    then show ?thesis
      using j by (simp add: cells_spick)
  qed
  then show ?thesis
    by (auto simp: row_at_def select_def)
qed

lemma rows_select:
  assumes wf: "wf_frame df"
  shows "rows (select m df) = pick m (rows df)"
proof -
  let ?idx = "pick m [0..<nrows df]"
  have "rows (select m df) = map (row_at (select m df)) [0..<length ?idx]"
    by (simp add: rows_def nrows_select [OF wf])
  also have "\<dots> = map (\<lambda>j. row_at df (?idx ! j)) [0..<length ?idx]"
    using row_at_select [OF wf] by simp
  also have "\<dots> = map (row_at df) (map (\<lambda>j. ?idx ! j) [0..<length ?idx])"
    by (simp add: comp_def)
  also have "\<dots> = map (row_at df) ?idx"
    by (simp add: map_nth)
  also have "\<dots> = pick m (rows df)"
    by (simp add: rows_def pick_map)
  finally show ?thesis .
qed

lemma length_rows [simp]: "length (rows df) = nrows df"
  by (simp add: rows_def)

lemma map_of_row_at:
  "map_of (row_at df i) c = map_option (\<lambda>s. cells s ! i) (map_of df c)"
  unfolding row_at_def by (induction df) auto

lemma in_window_Some:
  "in_window (Some a) (Some b) t = (\<exists>x. t = Some x \<and> a \<le> x \<and> x \<le> b)"
  by (cases t) (simp_all add: in_window_def)

lemma rows_select_window:
  assumes wf: "wf_frame df" and col: "map_of df time_col = Some (DatetimeS ts)"
  shows "rows (select (map (in_window (Some t0) (Some t1)) ts) df) =
           filter (\<lambda>r. \<exists>t. map_of r time_col = Some (PTime (Some t)) \<and> t0 \<le> t \<and> t \<le> t1) (rows df)"
proof -
  let ?P = "\<lambda>r. \<exists>t. map_of r time_col = Some (PTime (Some t)) \<and> t0 \<le> t \<and> t \<le> t1"
  let ?Q = "in_window (Some t0) (Some t1)"
  have len: "length ts = nrows df"
    using wf_frame_map_of [OF wf col] by simp
  have ts: "map (\<lambda>i. ts ! i) [0..<nrows df] = ts"
    using len map_nth [of ts] by simp
  have PQ: "?P (row_at df i) = ?Q (ts ! i)" if "i < nrows df" for i
    using that len by (auto simp: map_of_row_at col in_window_Some)
  have "map (\<lambda>i. ?Q (ts ! i)) [0..<nrows df] = map ?Q (map (\<lambda>i. ts ! i) [0..<nrows df])"
    by (simp add: comp_def)
  then have "map (\<lambda>i. ?Q (ts ! i)) [0..<nrows df] = map ?Q ts"
    by (simp only: ts)
  then have "pick (map ?Q ts) (rows df) =
          pick (map (\<lambda>i. ?Q (ts ! i)) [0..<nrows df]) (map (row_at df) [0..<nrows df])"
    by (simp add: rows_def)
  also have "\<dots> = map (row_at df) (filter (\<lambda>i. ?Q (ts ! i)) [0..<nrows df])"
    by (simp only: pick_map pick_map_self)
  also have "\<dots> = map (row_at df) (filter (\<lambda>i. ?P (row_at df i)) [0..<nrows df])"
  proof -
    have "filter (\<lambda>i. ?Q (ts ! i)) [0..<nrows df] = filter (\<lambda>i. ?P (row_at df i)) [0..<nrows df]"
      by (rule filter_cong) (simp_all add: PQ)
    then show ?thesis by (simp only:)
  qed
  also have "\<dots> = filter ?P (rows df)"
    by (simp add: rows_def filter_map comp_def)
  finally show ?thesis
    by (simp add: rows_select [OF wf])
qed

section \<open>Window extraction and the table it is given\<close>

lemma length_conv_all: "conv_all conv vs = Inr ts \<Longrightarrow> length ts = length vs"
  by (induction vs arbitrary: ts) (auto split: sum.splits)

lemma length_to_datetime: "to_datetime conv s = Inr ts \<Longrightarrow> length ts = slen s"
  by (simp add: to_datetime_def length_conv_all slen_cells)

lemma nrows_set_col:
  assumes "c \<in> set (columns df)" and "slen s = nrows df"
  shows "nrows (set_col df c s) = nrows df"
  using assms by (cases df) (auto simp: nrows_def columns_def)

lemma set_set_col:
  "(n, t) \<in> set (set_col df c s) \<Longrightarrow> (n, t) \<in> set df \<or> t = s"
  by (induction df) (auto split: if_splits)

lemma wf_frame_set_col:
  assumes "wf_frame df" and "c \<in> set (columns df)" and "slen s = nrows df"
  shows "wf_frame (set_col df c s)"
  unfolding wf_frame_def list_all_iff
proof (intro ballI, clarify)
  fix n t assume "(n, t) \<in> set (set_col df c s)"
  then have "(n, t) \<in> set df \<or> t = s"
    using set_set_col by blast
  then show "slen t = nrows (set_col df c s)"
    using assms wf_frame_slen nrows_set_col by metis
qed

lemma hd_filter_mem: "filter P xs = y # ys \<Longrightarrow> y \<in> set xs"
proof -
  assume h: "filter P xs = y # ys"
  have "y \<in> set (filter P xs)" by (simp add: h)
  then show ?thesis by simp
qed

lemma pick_all_False: "\<forall>b \<in> set m. \<not> b \<Longrightarrow> pick m xs = []"
  by (auto simp: pick_def filter_empty_conv dest: set_zip_leftD)

lemma extract_zigzag_window_empty_input:
  assumes wf: "wf_frame zigzag_df" and empty: "nrows zigzag_df = 0"
  shows "nrows (snd (extract_zigzag_window conv zigzag_df start_time end_time)) = 0"
proof (cases "filter is_time_name (columns zigzag_df)")
  case Nil
  then show ?thesis by (simp add: extract_zigzag_window_def nrows_def)
next
  case (Cons time_col others)
  then have mem: "time_col \<in> set (columns zigzag_df)"
    by (rule hd_filter_mem)
  show ?thesis
  proof (cases "map_of zigzag_df time_col")
    case None
    then show ?thesis using Cons by (simp add: extract_zigzag_window_def nrows_def)
  next
    case (Some s)
    have sl: "slen s = 0"
      using wf_frame_map_of [OF wf Some] empty by simp
    have dt: "nrows (select m zigzag_df) = 0" for m
      using empty by (simp add: nrows_select [OF wf])
    show ?thesis
    proof (cases "\<exists>ts. s = DatetimeS ts")
      case True
      then show ?thesis
        using Cons Some dt by (auto simp: extract_zigzag_window_def)
    next
      case False
      show ?thesis
      proof (cases "to_datetime conv s")
        case (Inl e)
        then show ?thesis
          using Cons Some False
          by (cases s) (simp_all add: extract_zigzag_window_def nrows_def)
      next
        case (Inr ts)
        have len: "length ts = 0"
          using length_to_datetime [OF Inr] sl by simp
        have wf': "wf_frame (set_col zigzag_df time_col (DatetimeS ts))"
          using wf mem len empty by (intro wf_frame_set_col) simp_all
        have n': "nrows (set_col zigzag_df time_col (DatetimeS ts)) = 0"
          using mem len empty by (simp add: nrows_set_col)
        have "nrows (select m (set_col zigzag_df time_col (DatetimeS ts))) = 0" for m
          using n' by (simp add: nrows_select [OF wf'])
        then show ?thesis
          using Cons Some Inr False
          by (cases s) (simp_all add: extract_zigzag_window_def Let_def)
      qed
    qed
  qed
qed

lemma extract_zigzag_window_unchanged:
  assumes "time_column_is_datetime zigzag_df"
  shows "fst (extract_zigzag_window conv zigzag_df start_time end_time) = zigzag_df"
  using assms
  by (auto simp: time_column_is_datetime_def extract_zigzag_window_def
           split: list.splits option.splits series.splits sum.splits)

lemma analyze_pre_event_unchanged:
  assumes "time_column_is_datetime zigzag_df"
  shows "fst (analyze_pre_event self conv indicator_row zigzag_df) = zigzag_df"
proof -
  define W where "W a b = snd (extract_zigzag_window conv zigzag_df a b)" for a b
  have e: "extract_zigzag_window conv zigzag_df a b = (zigzag_df, W a b)" for a b
    using extract_zigzag_window_unchanged [OF assms, of conv a b]
    unfolding W_def by (metis prod.collapse)
  show ?thesis
    by (simp add: analyze_pre_event_def e Let_def split: option.splits sum.splits)
qed

lemma post_loop_unchanged:
  assumes "time_column_is_datetime zigzag_df"
  shows "fst (post_loop conv event_time ws zigzag_df results) = zigzag_df"
proof (induction ws arbitrary: results)
  case Nil
  show ?case by simp
next
  case (Cons minutes rest)
  define W where "W a b = snd (extract_zigzag_window conv zigzag_df a b)" for a b
  have e: "extract_zigzag_window conv zigzag_df a b = (zigzag_df, W a b)" for a b
    using extract_zigzag_window_unchanged [OF assms, of conv a b]
    unfolding W_def by (metis prod.collapse)
  show ?case
    by (simp add: e Let_def Cons.IH)
qed

lemma analyze_post_event_unchanged:
  assumes "time_column_is_datetime zigzag_df"
  shows "fst (analyze_post_event self conv indicator_row zigzag_df) = zigzag_df"
  using post_loop_unchanged [OF assms]
  by (simp add: analyze_post_event_def split: option.splits sum.splits)

lemma analyze_indicator_unchanged:
  assumes "time_column_is_datetime zigzag_df"
  shows "fst (analyze_indicator self conv indicator_row zigzag_df) = zigzag_df"
proof -
  obtain pre where pre: "analyze_pre_event self conv indicator_row zigzag_df = (zigzag_df, pre)"
    using analyze_pre_event_unchanged [OF assms, of self conv indicator_row]
    by (metis prod.collapse)
  obtain post where post: "analyze_post_event self conv indicator_row zigzag_df = (zigzag_df, post)"
    using analyze_post_event_unchanged [OF assms, of self conv indicator_row]
    by (metis prod.collapse)
  show ?thesis
    by (simp add: analyze_indicator_def pre post Let_def split: sum.splits)
qed

lemma batch_loop_unchanged:
  assumes "time_column_is_datetime zigzag_df"
  shows "fst (batch_loop analyzer conv rws zigzag_df results) = zigzag_df"
proof (induction rws arbitrary: results)
  case Nil
  show ?case by simp
next
  case (Cons indicator_row rest)
  obtain r where r: "analyze_indicator analyzer conv indicator_row zigzag_df = (zigzag_df, r)"
    using analyze_indicator_unchanged [OF assms, of analyzer conv indicator_row]
    by (metis prod.collapse)
  show ?case
    by (cases r) (simp_all add: r Cons.IH)
qed

text \<open>
  C3, as amended. When the time column of the pivot table is of datetime dtype already
  (or the table has no time column), window extraction, pre-event analysis, post-event
  analysis, the analysis of one indicator and batch processing all leave the table as it
  was; what they return is new.
\<close>

theorem analysis_leaves_datetime_table_unchanged:
  assumes "time_column_is_datetime zigzag_df"
  shows "fst (extract_zigzag_window conv zigzag_df start_time end_time) = zigzag_df
       \<and> fst (analyze_pre_event self conv indicator_row zigzag_df) = zigzag_df
       \<and> fst (analyze_post_event self conv indicator_row zigzag_df) = zigzag_df
       \<and> fst (analyze_indicator self conv indicator_row zigzag_df) = zigzag_df
       \<and> fst (batch_process_indicators conv indicators_df zigzag_df analyzer) = zigzag_df"
  using assms
  by (simp add: extract_zigzag_window_unchanged analyze_pre_event_unchanged
        analyze_post_event_unchanged analyze_indicator_unchanged batch_loop_unchanged
        batch_process_indicators_def)

text \<open>
  C3, as stated, fails: on a table whose time column is a column of integers (as the
  first time column \<open>start_time_utc_seconds\<close> of the repository's pivot files is),
  \<open>extract_zigzag_window\<close> assigns the converted column back into the table it was given.
\<close>

theorem extract_zigzag_window_mutates_counterexample:
  "fst (extract_zigzag_window epoch_ns
          [(''start_time_utc_seconds'', IntS [1, 2]), (''price'', FloatS [Some 1, Some 2])]
          (Some 0) (Some 10))
     = [(''start_time_utc_seconds'', DatetimeS [Some 1, Some 2]), (''price'', FloatS [Some 1, Some 2])]
   \<and> fst (extract_zigzag_window epoch_ns
          [(''start_time_utc_seconds'', IntS [1, 2]), (''price'', FloatS [Some 1, Some 2])]
          (Some 0) (Some 10))
     \<noteq> [(''start_time_utc_seconds'', IntS [1, 2]), (''price'', FloatS [Some 1, Some 2])]"
  by (simp add: extract_zigzag_window_def columns_def is_time_name_def lower_def lower_char_def
        to_datetime_def Let_def)

text \<open>
  C8. For a table with fewer than 2 rows \<open>calculate_price_movement\<close> returns movement 0,
  the maximum, minimum, start and end price as \<open>None\<close>, and the direction
  \<open>neutral\<close>. The function is total, so it never raises.
\<close>

theorem calculate_price_movement_few_rows:
  assumes "nrows zigzag_window < 2"
  shows "calculate_price_movement zigzag_window =
           [''price_movement'' \<mapsto> PNum (Fin 0),
            ''max_price'' \<mapsto> PNone,
            ''min_price'' \<mapsto> PNone,
            ''start_price'' \<mapsto> PNone,
            ''end_price'' \<mapsto> PNone,
            ''movement_direction'' \<mapsto> PStr ''neutral'']"
  using assms by (simp add: calculate_price_movement_def)

section \<open>Price movement\<close>

lemma set_insort_by: "set (insort_by le x xs) = insert x (set xs)"
  by (induction xs) auto

lemma set_sort_by: "set (sort_by le xs) = set xs"
  unfolding sort_by_def by (induction xs) (simp_all add: set_insort_by)

lemma length_sort_keys: "length (sort_keys s) = slen s"
  by (cases s) simp_all

lemma set_argsort: "set (argsort s) = {0..<slen s}"
proof -
  have "set (argsort s) = snd ` set (zip (sort_keys s) [0..<slen s])"
    by (simp add: argsort_def set_sort_by)
  also have "\<dots> = set (map snd (zip (sort_keys s) [0..<slen s]))"
    by simp
  also have "\<dots> = set [0..<slen s]"
    by (simp only: map_snd_zip length_sort_keys length_upt diff_zero)
  finally show ?thesis by simp
qed

lemma map_of_sort_values:
  assumes "map_of df col = Some s"
  shows "map_of (sort_values df col) c = map_option (stake (argsort s)) (map_of df c)"
proof -
  have "map_of (map (\<lambda>(n, t). (n, f t)) df) c = map_option f (map_of df c)" for f :: "series \<Rightarrow> series"
    by (induction df) auto
  then show ?thesis
    by (simp add: sort_values_def assms)
qed

lemma take_rows_nonempty:
  assumes "set perm = {0..<n}" and "length xs = n" and "0 < n"
  shows "take_rows perm xs \<noteq> []"
proof -
  have "0 \<in> set perm" using assms by simp
  then have "0 \<in> set (filter (\<lambda>i. i < length xs) perm)"
    using assms by simp
  then show ?thesis
    unfolding take_rows_def by (metis empty_iff list.map_disc_iff list.set(1))
qed

lemma sorted_prices_nonempty:
  assumes wf: "wf_frame df" and n: "2 \<le> nrows df"
    and col: "map_of df price_col = Some (FloatS prices)"
  shows "\<exists>p ps. Option.bind (map_of
            (case filter is_time_name (columns df) of
               [] \<Rightarrow> df
             | time_col # _ \<Rightarrow> sort_values df time_col) price_col) numeric = Some (p # ps)"
proof -
  have len: "length prices = nrows df"
    using wf_frame_map_of [OF wf col] by simp
  show ?thesis
  proof (cases "filter is_time_name (columns df)")
    case Nil
    then show ?thesis
      using col len n by (cases prices) auto
  next
    case (Cons time_col others)
    show ?thesis
    proof (cases "map_of df time_col")
      case None
      then show ?thesis
        using Cons col len n by (cases prices) (auto simp: sort_values_def)
    next
      case (Some s)
      have "slen s = nrows df"
        using wf_frame_map_of [OF wf Some] .
      then have "take_rows (argsort s) prices \<noteq> []"
        using len n by (intro take_rows_nonempty [where n = "nrows df"]) (simp_all add: set_argsort)
      then obtain p ps where "take_rows (argsort s) prices = p # ps"
        by (cases "take_rows (argsort s) prices") auto
      then show ?thesis
        using Cons by (simp add: map_of_sort_values [OF Some] col)
    qed
  qed
qed

lemma smax_Max: "dropna xs \<noteq> [] \<Longrightarrow> smax xs = Some (Max (set (dropna xs)))"
proof (cases "dropna xs")
  case (Cons v vs)
  have "Max (set (v # vs)) = fold max vs v"
    by (rule Max.set_eq_fold)
  then show ?thesis
    by (simp add: smax_def Cons)
qed simp

lemma smin_Min: "dropna xs \<noteq> [] \<Longrightarrow> smin xs = Some (Min (set (dropna xs)))"
proof (cases "dropna xs")
  case (Cons v vs)
  have "Min (set (v # vs)) = fold min vs v"
    by (rule Min.set_eq_fold)
  then show ?thesis
    by (simp add: smin_def Cons)
qed simp

text \<open>
  A price movement is a maximum minus a minimum, or the 0 of an early return: when it
  is a number it is not negative. It is NaN when the price column of the window holds
  no number.
\<close>

lemma calculate_price_movement_nonnegative:
  assumes "calculate_price_movement zigzag_window ''price_movement'' = Some (PNum (Fin r))"
  shows "0 \<le> r"
proof -
  have sub: "0 \<le> r" if "pnum (fsub (smax prices) (smin prices)) = PNum (Fin r)" for prices
  proof (cases "dropna prices = []")
    case True
    then show ?thesis using that by (simp add: smax_def smin_def fsub_def pnum_def)
  next
    case False
    then have "r = Max (set (dropna prices)) - Min (set (dropna prices))"
      using that by (simp add: smax_Max smin_Min fsub_def pnum_def)
    moreover have "Min (set (dropna prices)) \<le> Max (set (dropna prices))"
    proof -
      obtain x where x: "x \<in> set (dropna prices)"
        using False by (cases "dropna prices") auto
      have "Min (set (dropna prices)) \<le> x" "x \<le> Max (set (dropna prices))"
        using x by simp_all
      then show ?thesis by simp
    qed
    ultimately show ?thesis by simp
  qed
  show ?thesis
    using assms sub
    by (auto simp: calculate_price_movement_def Let_def
             split: if_splits list.splits option.splits)
qed

text \<open>
  C1, as amended. For a table with at least 2 rows, the returned maximum and minimum
  are those of the first price column alone (the first column whose name contains
  \<open>price\<close>; NaN skipped), and the price movement is their difference.
\<close>

theorem calculate_price_movement_first_price_column:
  assumes n: "2 \<le> nrows zigzag_window"
    and wf: "wf_frame zigzag_window"
    and pc: "filter is_price_name (columns zigzag_window) = price_col # others"
    and col: "map_of zigzag_window price_col = Some (FloatS prices)"
    and vals: "dropna prices \<noteq> []"
  shows "calculate_price_movement zigzag_window ''max_price'' =
           Some (PNum (Fin (Max (set (dropna prices)))))
       \<and> calculate_price_movement zigzag_window ''min_price'' =
           Some (PNum (Fin (Min (set (dropna prices)))))
       \<and> calculate_price_movement zigzag_window ''price_movement'' =
           Some (PNum (Fin (Max (set (dropna prices)) - Min (set (dropna prices)))))"
proof -
  obtain p ps where sorted:
    "Option.bind (map_of
        (case filter is_time_name (columns zigzag_window) of
           [] \<Rightarrow> zigzag_window
         | time_col # _ \<Rightarrow> sort_values zigzag_window time_col) price_col) numeric = Some (p # ps)"
    using sorted_prices_nonempty [OF wf n col] by blast
  have "\<not> nrows zigzag_window < 2" using n by simp
  then show ?thesis
    by (simp add: calculate_price_movement_def pc col sorted Let_def
          smax_Max [OF vals] smin_Min [OF vals] fsub_def pnum_def)
qed

theorem calculate_price_movement_first_price_column_witness:
  "calculate_price_movement
     [(''start_time'', DatetimeS [Some 0, Some 60000000000]),
      (''end_time'', DatetimeS [Some 60000000000, Some 120000000000]),
      (''start_price'', FloatS [Some 1, Some 2]),
      (''end_price'', FloatS [Some 10, Some 0])] ''max_price'' = Some (PNum (Fin 2))
   \<and> calculate_price_movement
     [(''start_time'', DatetimeS [Some 0, Some 60000000000]),
      (''end_time'', DatetimeS [Some 60000000000, Some 120000000000]),
      (''start_price'', FloatS [Some 1, Some 2]),
      (''end_price'', FloatS [Some 10, Some 0])] ''min_price'' = Some (PNum (Fin 1))
   \<and> calculate_price_movement
     [(''start_time'', DatetimeS [Some 0, Some 60000000000]),
      (''end_time'', DatetimeS [Some 60000000000, Some 120000000000]),
      (''start_price'', FloatS [Some 1, Some 2]),
      (''end_price'', FloatS [Some 10, Some 0])] ''price_movement'' = Some (PNum (Fin 1))"
  using calculate_price_movement_first_price_column
    [of "[(''start_time'', DatetimeS [Some 0, Some 60000000000]),
      (''end_time'', DatetimeS [Some 60000000000, Some 120000000000]),
      (''start_price'', FloatS [Some 1, Some 2]),
      (''end_price'', FloatS [Some 10, Some 0])]" "''start_price''" "[''end_price'']" "[Some 1, Some 2]"]
  by (simp add: nrows_def wf_frame_def columns_def is_price_name_def lower_def lower_char_def dropna_def)

text \<open>
  C1, as stated, fails: on a pivot table with the columns \<open>start_price\<close> and
  \<open>end_price\<close> the returned high and low are those of \<open>start_price\<close>, not of
  the union of both columns.
\<close>

theorem calculate_price_movement_union_counterexample:
  "calculate_price_movement
     [(''start_time'', DatetimeS [Some 0, Some 60000000000]),
      (''end_time'', DatetimeS [Some 60000000000, Some 120000000000]),
      (''start_price'', FloatS [Some 1, Some 2]),
      (''end_price'', FloatS [Some 10, Some 0])] ''max_price'' = Some (PNum (Fin 2))
   \<and> Max (set ([1, 2] @ [10, 0])) = (10 :: real)
   \<and> calculate_price_movement
     [(''start_time'', DatetimeS [Some 0, Some 60000000000]),
      (''end_time'', DatetimeS [Some 60000000000, Some 120000000000]),
      (''start_price'', FloatS [Some 1, Some 2]),
      (''end_price'', FloatS [Some 10, Some 0])] ''min_price'' = Some (PNum (Fin 1))
   \<and> Min (set ([1, 2] @ [10, 0])) = (0 :: real)"
  by code_simp

theorem calculate_price_movement_few_rows_witness:
  "calculate_price_movement [(''time'', DatetimeS [Some 0]), (''price'', FloatS [Some 1800])] =
     [''price_movement'' \<mapsto> PNum (Fin 0),
      ''max_price'' \<mapsto> PNone,
      ''min_price'' \<mapsto> PNone,
      ''start_price'' \<mapsto> PNone,
      ''end_price'' \<mapsto> PNone,
      ''movement_direction'' \<mapsto> PStr ''neutral'']"
  using calculate_price_movement_few_rows
    [of "[(''time'', DatetimeS [Some 0]), (''price'', FloatS [Some 1800])]"]
  by (simp add: nrows_def)

theorem analysis_leaves_datetime_table_unchanged_witness:
  "fst (extract_zigzag_window epoch_ns
          [(''time'', DatetimeS [Some 0, Some 120000000000]), (''price'', FloatS [Some 1800, Some 1805])]
          (Some 0) (Some 60000000000))
     = [(''time'', DatetimeS [Some 0, Some 120000000000]), (''price'', FloatS [Some 1800, Some 1805])]
   \<and> fst (batch_process_indicators epoch_ns
          [(''DateTime_UTC'', DatetimeS [Some 120000000000])]
          [(''time'', DatetimeS [Some 0, Some 120000000000]), (''price'', FloatS [Some 1800, Some 1805])]
          None)
     = [(''time'', DatetimeS [Some 0, Some 120000000000]), (''price'', FloatS [Some 1800, Some 1805])]"
  using analysis_leaves_datetime_table_unchanged
    [of "[(''time'', DatetimeS [Some 0, Some 120000000000]), (''price'', FloatS [Some 1800, Some 1805])]"
        epoch_ns "Some 0" "Some 60000000000" _ _ "[(''DateTime_UTC'', DatetimeS [Some 120000000000])]" None]
  by (simp add: time_column_is_datetime_def columns_def is_time_name_def lower_def lower_char_def)

section \<open>Ratios of post-event to pre-event movement\<close>

subsection \<open>Keys\<close>

lemma digit_val_digit_char: "d < 10 \<Longrightarrow> digit_val (digit_char d) = d"
  by (simp add: digit_val_def digit_char_def)

lemma decode_str_nat: "foldl (\<lambda>a c. 10 * a + digit_val c) 0 (str_nat n) = n"
proof (induction n rule: str_nat.induct)
  case (1 n)
  show ?case
  proof (cases "n < 10")
    case True
    then show ?thesis
      by (subst str_nat.simps) (simp add: digit_val_digit_char)
  next
    case False
    then have "foldl (\<lambda>a c. 10 * a + digit_val c) 0 (str_nat (n div 10)) = n div 10"
      using 1 by simp
    then show ?thesis
      using False by (subst str_nat.simps) (simp add: digit_val_digit_char)
  qed
qed

lemma str_nat_inj: "str_nat a = str_nat b \<Longrightarrow> a = b"
  by (metis decode_str_nat)

lemma str_nat_no_minus: "CHR ''-'' \<notin> set (str_nat n)"
proof (induction n rule: str_nat.induct)
  case (1 n)
  have d: "digit_char k \<noteq> CHR ''-''" if "k < 10" for k
  proof
    assume "digit_char k = CHR ''-''"
    then have "(of_char (digit_char k) :: nat) = of_char CHR ''-''" by simp
    then show False using that by (simp add: digit_char_def)
  qed
  show ?case
  proof (cases "n < 10")
    case True
    then show ?thesis using d [of n] by (subst str_nat.simps) auto
  next
    case False
    then show ?thesis using 1 d [of "n mod 10"] by (subst str_nat.simps) auto
  qed
qed

lemma str_int_inj: "str_int a = str_int b \<Longrightarrow> a = b"
proof -
  assume h: "str_int a = str_int b"
  have neg: "str_int i = CHR ''-'' # str_nat (nat (- i))" if "i < 0" for i
    using that by (simp add: str_int_def)
  have pos: "str_int i = str_nat (nat i)" if "\<not> i < 0" for i
    using that by (simp add: str_int_def)
  consider "a < 0" "b < 0" | "a < 0" "\<not> b < 0" | "\<not> a < 0" "b < 0" | "\<not> a < 0" "\<not> b < 0"
    by blast
  then show ?thesis
  proof cases
    case 1
    then have "nat (- a) = nat (- b)"
      using h by (simp add: neg str_nat_inj)
    then show ?thesis using 1 by simp
  next
    case 2
    then have "CHR ''-'' \<in> set (str_nat (nat b))"
      using h by (metis neg pos list.set_intros(1))
    then show ?thesis using str_nat_no_minus by blast
  next
    case 3
    then have "CHR ''-'' \<in> set (str_nat (nat a))"
      using h by (metis neg pos list.set_intros(1))
    then show ?thesis using str_nat_no_minus by blast
  next
    case 4
    then have "nat a = nat b"
      using h by (simp add: pos str_nat_inj)
    then show ?thesis using 4 by simp
  qed
qed

lemma str_int_eq_iff [simp]: "str_int a = str_int b \<longleftrightarrow> a = b"
  using str_int_inj by blast

subsection \<open>The two passes of calculate_ratios over the post windows\<close>

lemma ratio_loop_untouched:
  assumes "ratio_loop post_results pre_movement ws acc = Inr r"
    and "\<forall>M \<in> set ws. truthy (get post_results (''post_'' @ str_int M @ ''min'' @ ''_valid'') (PBool False))
           \<longrightarrow> k \<noteq> ''ratio_'' @ str_int M @ ''min'' \<and> k \<noteq> ''log_ratio_'' @ str_int M @ ''min''"
  shows "r k = acc k"
  using assms
proof (induction ws arbitrary: acc)
  case Nil
  then show ?case by simp
next
  case (Cons M rest)
  show ?case
  proof (cases "truthy (get post_results (''post_'' @ str_int M @ ''min'' @ ''_valid'') (PBool False))")
    case False
    then show ?thesis
      using Cons by (simp add: Let_def)
  next
    case True
    then obtain acc' where step: "ratio_loop post_results pre_movement rest acc' = Inr r"
      and acc': "acc' k = acc k"
      using Cons.prems
      by (auto simp: Let_def split: sum.splits if_splits bool.splits)
    have "r k = acc' k"
      using Cons.IH [OF step] Cons.prems(2) by simp
    then show ?thesis using acc' by simp
  qed
qed

lemma consistency_loop_untouched:
  assumes "\<forall>M \<in> set ws. k \<noteq> ''direction_consistency_'' @ str_int M @ ''min''"
  shows "consistency_loop post_results pre_direction ws acc k = acc k"
  using assms by (induction ws arbitrary: acc) (simp_all add: Let_def)

lemma consistency_loop_value:
  assumes "N \<in> set ws"
  shows "consistency_loop post_results pre_direction ws acc
           (''direction_consistency_'' @ str_int N @ ''min'') =
         Some (direction_consistency pre_direction
                 (get post_results (''post_'' @ str_int N @ ''min'' @ ''_movement_direction'')
                    (PStr ''neutral'')))"
  using assms
proof (induction ws arbitrary: acc)
  case Nil
  then show ?case by simp
next
  case (Cons M rest)
  show ?case
  proof (cases "N \<in> set rest")
    case True
    then show ?thesis
      using Cons.IH by (simp add: Let_def)
  next
    case False
    then have "N = M" using Cons.prems by simp
    moreover have "\<forall>M' \<in> set rest.
        ''direction_consistency_'' @ str_int N @ ''min'' \<noteq> ''direction_consistency_'' @ str_int M' @ ''min''"
      using False by auto
    ultimately show ?thesis
      by (simp add: Let_def consistency_loop_untouched)
  qed
qed

text \<open>One valid window with a numeric movement, the pre-event movement being positive.\<close>

lemma ratio_loop_positive:
  assumes p: "0 < p"
    and numeric: "\<forall>M \<in> set ws.
        truthy (get post_results (''post_'' @ str_int M @ ''min'' @ ''_valid'') (PBool False)) \<longrightarrow>
        num_of (get post_results (''post_'' @ str_int M @ ''min'' @ ''_price_movement'') (PNum (Fin 0))) \<noteq> None"
  shows "\<exists>r. ratio_loop post_results (PNum (Fin p)) ws acc = Inr r
           \<and> (\<forall>N \<in> set ws. \<forall>q.
                 truthy (get post_results (''post_'' @ str_int N @ ''min'' @ ''_valid'') (PBool False)) \<longrightarrow>
                 get post_results (''post_'' @ str_int N @ ''min'' @ ''_price_movement'') (PNum (Fin 0))
                   = PNum (Fin q) \<longrightarrow>
                 r (''ratio_'' @ str_int N @ ''min'') = Some (PNum (Fin (q / p)))
                 \<and> r (''log_ratio_'' @ str_int N @ ''min'') =
                     (if 0 < q / p then Some (PNum (Fin (ln (q / p))))
                      else acc (''log_ratio_'' @ str_int N @ ''min'')))"
  using numeric
proof (induction ws arbitrary: acc)
  case Nil
  then show ?case by simp
next
  case (Cons M rest)
  let ?valid = "\<lambda>M. truthy (get post_results (''post_'' @ str_int M @ ''min'' @ ''_valid'') (PBool False))"
  let ?mv = "\<lambda>M. get post_results (''post_'' @ str_int M @ ''min'' @ ''_price_movement'') (PNum (Fin 0))"
  let ?rk = "\<lambda>M. ''ratio_'' @ str_int M @ ''min''"
  let ?lk = "\<lambda>M. ''log_ratio_'' @ str_int M @ ''min''"
  have num_rest: "\<forall>M \<in> set rest. ?valid M \<longrightarrow> num_of (?mv M) \<noteq> None"
    using Cons.prems by simp
  show ?case
  proof (cases "?valid M")
    case False
    obtain r where r: "ratio_loop post_results (PNum (Fin p)) rest acc = Inr r"
      and rest: "\<forall>N \<in> set rest. \<forall>q. ?valid N \<longrightarrow> ?mv N = PNum (Fin q) \<longrightarrow>
            r (?rk N) = Some (PNum (Fin (q / p)))
            \<and> r (?lk N) = (if 0 < q / p then Some (PNum (Fin (ln (q / p)))) else acc (?lk N))"
      using Cons.IH [OF num_rest, of acc] by blast
    have "ratio_loop post_results (PNum (Fin p)) (M # rest) acc = Inr r"
      using False r by (simp add: Let_def)
    then show ?thesis
      using rest False by auto
  next
    case True
    then obtain x where x: "num_of (?mv M) = Some x"
      using Cons.prems by auto
    obtain z where z: "num_div x (Fin p) = Inr z"
      using p by (cases x) (auto simp: num_div_def)
    define acc' where "acc' =
      (if num_pos z then (acc(?rk M \<mapsto> PNum z))(?lk M \<mapsto> PNum (np_log z))
       else acc(?rk M \<mapsto> PNum z))"
    have step: "ratio_loop post_results (PNum (Fin p)) (M # rest) acc =
                  ratio_loop post_results (PNum (Fin p)) rest acc'"
      using True p x z
      by (simp add: Let_def py_gt0_def py_truediv_def acc'_def)
    obtain r where r: "ratio_loop post_results (PNum (Fin p)) rest acc' = Inr r"
      and rest: "\<forall>N \<in> set rest. \<forall>q. ?valid N \<longrightarrow> ?mv N = PNum (Fin q) \<longrightarrow>
            r (?rk N) = Some (PNum (Fin (q / p)))
            \<and> r (?lk N) = (if 0 < q / p then Some (PNum (Fin (ln (q / p)))) else acc' (?lk N))"
      using Cons.IH [OF num_rest, of acc'] by blast
    have zq: "z = Fin (q / p)" if "?mv M = PNum (Fin q)" for q
      using that x z p by (auto simp: num_div_def)
    have concl: "r (?rk N) = Some (PNum (Fin (q / p)))
            \<and> r (?lk N) = (if 0 < q / p then Some (PNum (Fin (ln (q / p)))) else acc (?lk N))"
      if N: "N \<in> set (M # rest)" and v: "?valid N" and q: "?mv N = PNum (Fin q)" for N q
    proof (cases "N \<in> set rest")
      case inrest: True
      have "acc' (?lk N) = acc (?lk N)" if "\<not> 0 < q / p"
      proof (cases "N = M")
        case True
        then show ?thesis using that zq q by (auto simp: acc'_def)
      next
        case False
        then show ?thesis by (auto simp: acc'_def)
      qed
      then show ?thesis
        using rest inrest v q by auto
    next
      case False
      then have NM: "N = M" using N by simp
      have unt: "r k = acc' k"
        if "\<forall>M' \<in> set rest. k \<noteq> ?rk M' \<and> k \<noteq> ?lk M'" for k
        using ratio_loop_untouched [OF r] that by blast
      have "r (?rk M) = acc' (?rk M)" "r (?lk M) = acc' (?lk M)"
        using False NM by (auto intro!: unt)
      then show ?thesis
        using NM zq [of q] q p by (auto simp: acc'_def)
    qed
    show ?thesis
      using step r concl by auto
  qed
qed

lemma ratios_valid_key:
  "''ratios_valid'' \<noteq> ''ratio_'' @ s @ ''min''"
  "''ratios_valid'' \<noteq> ''log_ratio_'' @ s @ ''min''"
  "''ratios_valid'' \<noteq> ''direction_consistency_'' @ s @ ''min''"
  by simp_all

text \<open>
  The pre-event movement being NaN: it is not equal to 0 and not greater than 0, so
  every valid window gets the ratio \<open>float('inf')\<close>, and its logarithm.
\<close>

lemma ratio_loop_nan:
  "\<exists>r. ratio_loop post_results (PNum NaN) ws acc = Inr r
       \<and> (\<forall>N \<in> set ws.
             truthy (get post_results (''post_'' @ str_int N @ ''min'' @ ''_valid'') (PBool False)) \<longrightarrow>
             r (''ratio_'' @ str_int N @ ''min'') = Some (PNum PosInf)
             \<and> r (''log_ratio_'' @ str_int N @ ''min'') = Some (PNum PosInf))"
proof (induction ws arbitrary: acc)
  case Nil
  then show ?case by simp
next
  case (Cons M rest)
  let ?valid = "\<lambda>M. truthy (get post_results (''post_'' @ str_int M @ ''min'' @ ''_valid'') (PBool False))"
  let ?rk = "\<lambda>M. ''ratio_'' @ str_int M @ ''min''"
  let ?lk = "\<lambda>M. ''log_ratio_'' @ str_int M @ ''min''"
  show ?case
  proof (cases "?valid M")
    case False
    obtain r where r: "ratio_loop post_results (PNum NaN) rest acc = Inr r"
      and rest: "\<forall>N \<in> set rest. ?valid N \<longrightarrow>
            r (?rk N) = Some (PNum PosInf) \<and> r (?lk N) = Some (PNum PosInf)"
      using Cons.IH [of acc] by blast
    have "ratio_loop post_results (PNum NaN) (M # rest) acc = Inr r"
      using False r by (simp add: Let_def)
    then show ?thesis
      using rest False by auto
  next
    case True
    define acc' where "acc' = (acc(?rk M \<mapsto> PNum PosInf))(?lk M \<mapsto> PNum PosInf)"
    have step: "ratio_loop post_results (PNum NaN) (M # rest) acc =
                  ratio_loop post_results (PNum NaN) rest acc'"
      using True by (simp add: Let_def py_gt0_def acc'_def)
    obtain r where r: "ratio_loop post_results (PNum NaN) rest acc' = Inr r"
      and rest: "\<forall>N \<in> set rest. ?valid N \<longrightarrow>
            r (?rk N) = Some (PNum PosInf) \<and> r (?lk N) = Some (PNum PosInf)"
      using Cons.IH [of acc'] by blast
    have head: "r (?rk M) = Some (PNum PosInf) \<and> r (?lk M) = Some (PNum PosInf)"
    proof (cases "M \<in> set rest")
      case True
      then show ?thesis using rest \<open>?valid M\<close> by blast
    next
      case False
      then have "r (?rk M) = acc' (?rk M)" "r (?lk M) = acc' (?lk M)"
        using r by (intro ratio_loop_untouched [where ws = rest]; auto)+
      then show ?thesis by (simp add: acc'_def)
    qed
    show ?thesis
      using step r rest head by auto
  qed
qed

lemma calculate_ratios_nan:
  assumes pre: "truthy (get pre_results ''pre_event_valid'' (PBool False))"
    and post: "truthy (get post_results ''post_event_valid'' (PBool False))"
    and nan: "get pre_results ''price_movement'' (PNum (Fin 0)) = PNum NaN"
  shows "\<exists>r. calculate_ratios self pre_results post_results = Inr r
           \<and> r ''ratios_valid'' = Some (PBool True)
           \<and> (\<forall>N \<in> set (post_windows self).
                 truthy (get post_results (''post_'' @ str_int N @ ''min'' @ ''_valid'') (PBool False)) \<longrightarrow>
                 r (''ratio_'' @ str_int N @ ''min'') = Some (PNum PosInf)
                 \<and> r (''log_ratio_'' @ str_int N @ ''min'') = Some (PNum PosInf))"
proof -
  obtain ratios where loop: "ratio_loop post_results (PNum NaN) (post_windows self) Map.empty = Inr ratios"
    and vals: "\<forall>N \<in> set (post_windows self).
                 truthy (get post_results (''post_'' @ str_int N @ ''min'' @ ''_valid'') (PBool False)) \<longrightarrow>
                 ratios (''ratio_'' @ str_int N @ ''min'') = Some (PNum PosInf)
                 \<and> ratios (''log_ratio_'' @ str_int N @ ''min'') = Some (PNum PosInf)"
    using ratio_loop_nan [of post_results "post_windows self" Map.empty] by blast
  define r where "r = (consistency_loop post_results
                         (get pre_results ''movement_direction'' (PStr ''neutral''))
                         (post_windows self) ratios)(''ratios_valid'' \<mapsto> PBool True)"
  have res: "calculate_ratios self pre_results post_results = Inr r"
    using pre post nan loop by (simp add: calculate_ratios_def Let_def py_eq_def num_eq_def r_def)
  have keep: "r (''ratio_'' @ s @ ''min'') = ratios (''ratio_'' @ s @ ''min'')"
             "r (''log_ratio_'' @ s @ ''min'') = ratios (''log_ratio_'' @ s @ ''min'')" for s
    by (simp_all add: r_def consistency_loop_untouched)
  show ?thesis
  proof (intro exI conjI)
    show "calculate_ratios self pre_results post_results = Inr r" by (rule res)
    show "r ''ratios_valid'' = Some (PBool True)" by (simp add: r_def)
    show "\<forall>N \<in> set (post_windows self).
                 truthy (get post_results (''post_'' @ str_int N @ ''min'' @ ''_valid'') (PBool False)) \<longrightarrow>
                 r (''ratio_'' @ str_int N @ ''min'') = Some (PNum PosInf)
                 \<and> r (''log_ratio_'' @ str_int N @ ''min'') = Some (PNum PosInf)"
      unfolding keep using vals by simp
  qed
qed

text \<open>\<open>analyze_indicator\<close> adds the keys of the indicator row that are not results.\<close>

lemma add_missing_keeps:
  "m k = Some v \<Longrightarrow> add_missing indicator_row m k = Some v"
  unfolding add_missing_def
proof (induction indicator_row arbitrary: m)
  case Nil
  then show ?case by simp
next
  case (Cons p rest)
  have "(if m (fst p) = None then m(fst p \<mapsto> snd p) else m) k = Some v"
    using Cons.prems by auto
  then show ?case
    using Cons.IH by (simp add: case_prod_unfold)
qed

text \<open>
  C4, as amended. \<open>calculate_ratios\<close> returns a result with \<open>ratios_valid\<close> false,
  without raising, whenever the pre result is invalid, the post result is invalid, or
  the pre-event price movement equals 0. Otherwise, when the pre-event price movement
  is a positive number \<open>p\<close> (and the movements of the valid post windows are numbers),
  it returns a result with \<open>ratios_valid\<close> true that holds, for each post window \<open>N\<close>
  whose metrics are valid and whose movement is \<open>q\<close>, \<open>ratio_Nmin = q / p\<close>, and
  \<open>log_ratio_Nmin = ln (q / p)\<close> exactly when the ratio is positive. When the
  pre-event price movement is NaN, as it is when the pivots of the pre-event window
  have no price, the result has \<open>ratios_valid\<close> true as well, and for each valid post
  window \<open>ratio_Nmin\<close> and \<open>log_ratio_Nmin\<close> are both infinite, whatever the post
  movement is. (A price movement is never negative: lemma
  \<open>calculate_price_movement_nonnegative\<close>.)
\<close>

theorem calculate_ratios_invalid_or_ratio:
  "(\<not> truthy (get pre_results ''pre_event_valid'' (PBool False))
      \<or> \<not> truthy (get post_results ''post_event_valid'' (PBool False))
      \<or> py_eq (get pre_results ''price_movement'' (PNum (Fin 0))) (PNum (Fin 0))
    \<longrightarrow> (\<exists>r. calculate_ratios self pre_results post_results = Inr r
              \<and> r ''ratios_valid'' = Some (PBool False)))
   \<and> (truthy (get pre_results ''pre_event_valid'' (PBool False))
      \<and> truthy (get post_results ''post_event_valid'' (PBool False))
      \<and> get pre_results ''price_movement'' (PNum (Fin 0)) = PNum (Fin p) \<and> 0 < p
      \<and> (\<forall>M \<in> set (post_windows self).
            truthy (get post_results (''post_'' @ str_int M @ ''min'' @ ''_valid'') (PBool False)) \<longrightarrow>
            num_of (get post_results (''post_'' @ str_int M @ ''min'' @ ''_price_movement'')
                      (PNum (Fin 0))) \<noteq> None)
    \<longrightarrow> (\<exists>r. calculate_ratios self pre_results post_results = Inr r
              \<and> r ''ratios_valid'' = Some (PBool True)
              \<and> (\<forall>N \<in> set (post_windows self). \<forall>q.
                    truthy (get post_results (''post_'' @ str_int N @ ''min'' @ ''_valid'') (PBool False)) \<longrightarrow>
                    get post_results (''post_'' @ str_int N @ ''min'' @ ''_price_movement'') (PNum (Fin 0))
                      = PNum (Fin q) \<longrightarrow>
                    r (''ratio_'' @ str_int N @ ''min'') = Some (PNum (Fin (q / p)))
                    \<and> r (''log_ratio_'' @ str_int N @ ''min'') =
                        (if 0 < q / p then Some (PNum (Fin (ln (q / p)))) else None))))
   \<and> (truthy (get pre_results ''pre_event_valid'' (PBool False))
      \<and> truthy (get post_results ''post_event_valid'' (PBool False))
      \<and> get pre_results ''price_movement'' (PNum (Fin 0)) = PNum NaN
    \<longrightarrow> (\<exists>r. calculate_ratios self pre_results post_results = Inr r
              \<and> r ''ratios_valid'' = Some (PBool True)
              \<and> (\<forall>N \<in> set (post_windows self).
                    truthy (get post_results (''post_'' @ str_int N @ ''min'' @ ''_valid'') (PBool False)) \<longrightarrow>
                    r (''ratio_'' @ str_int N @ ''min'') = Some (PNum PosInf)
                    \<and> r (''log_ratio_'' @ str_int N @ ''min'') = Some (PNum PosInf))))"
proof (intro conjI impI)
  assume "truthy (get pre_results ''pre_event_valid'' (PBool False))
      \<and> truthy (get post_results ''post_event_valid'' (PBool False))
      \<and> get pre_results ''price_movement'' (PNum (Fin 0)) = PNum NaN"
  then show "\<exists>r. calculate_ratios self pre_results post_results = Inr r
              \<and> r ''ratios_valid'' = Some (PBool True)
              \<and> (\<forall>N \<in> set (post_windows self).
                    truthy (get post_results (''post_'' @ str_int N @ ''min'' @ ''_valid'') (PBool False)) \<longrightarrow>
                    r (''ratio_'' @ str_int N @ ''min'') = Some (PNum PosInf)
                    \<and> r (''log_ratio_'' @ str_int N @ ''min'') = Some (PNum PosInf))"
    using calculate_ratios_nan [of pre_results post_results self] by blast
next
  assume "\<not> truthy (get pre_results ''pre_event_valid'' (PBool False))
      \<or> \<not> truthy (get post_results ''post_event_valid'' (PBool False))
      \<or> py_eq (get pre_results ''price_movement'' (PNum (Fin 0))) (PNum (Fin 0))"
  then show "\<exists>r. calculate_ratios self pre_results post_results = Inr r
              \<and> r ''ratios_valid'' = Some (PBool False)"
    by (auto simp: calculate_ratios_def Let_def)
next
  assume h: "truthy (get pre_results ''pre_event_valid'' (PBool False))
      \<and> truthy (get post_results ''post_event_valid'' (PBool False))
      \<and> get pre_results ''price_movement'' (PNum (Fin 0)) = PNum (Fin p) \<and> 0 < p
      \<and> (\<forall>M \<in> set (post_windows self).
            truthy (get post_results (''post_'' @ str_int M @ ''min'' @ ''_valid'') (PBool False)) \<longrightarrow>
            num_of (get post_results (''post_'' @ str_int M @ ''min'' @ ''_price_movement'')
                      (PNum (Fin 0))) \<noteq> None)"
  then have p: "0 < p" by simp
  obtain ratios where loop: "ratio_loop post_results (PNum (Fin p)) (post_windows self) Map.empty = Inr ratios"
    and vals: "\<forall>N \<in> set (post_windows self). \<forall>q.
                 truthy (get post_results (''post_'' @ str_int N @ ''min'' @ ''_valid'') (PBool False)) \<longrightarrow>
                 get post_results (''post_'' @ str_int N @ ''min'' @ ''_price_movement'') (PNum (Fin 0))
                   = PNum (Fin q) \<longrightarrow>
                 ratios (''ratio_'' @ str_int N @ ''min'') = Some (PNum (Fin (q / p)))
                 \<and> ratios (''log_ratio_'' @ str_int N @ ''min'') =
                     (if 0 < q / p then Some (PNum (Fin (ln (q / p))))
                      else Map.empty (''log_ratio_'' @ str_int N @ ''min''))"
    using ratio_loop_positive [OF p, of "post_windows self" post_results Map.empty] h by blast
  define r where "r = (consistency_loop post_results
                         (get pre_results ''movement_direction'' (PStr ''neutral''))
                         (post_windows self) ratios)(''ratios_valid'' \<mapsto> PBool True)"
  have res: "calculate_ratios self pre_results post_results = Inr r"
    using h p loop by (simp add: calculate_ratios_def Let_def py_eq_def num_eq_def r_def)
  have keep: "r (''ratio_'' @ s @ ''min'') = ratios (''ratio_'' @ s @ ''min'')"
             "r (''log_ratio_'' @ s @ ''min'') = ratios (''log_ratio_'' @ s @ ''min'')" for s
    by (simp_all add: r_def consistency_loop_untouched)
  show "\<exists>r. calculate_ratios self pre_results post_results = Inr r
              \<and> r ''ratios_valid'' = Some (PBool True)
              \<and> (\<forall>N \<in> set (post_windows self). \<forall>q.
                    truthy (get post_results (''post_'' @ str_int N @ ''min'' @ ''_valid'') (PBool False)) \<longrightarrow>
                    get post_results (''post_'' @ str_int N @ ''min'' @ ''_price_movement'') (PNum (Fin 0))
                      = PNum (Fin q) \<longrightarrow>
                    r (''ratio_'' @ str_int N @ ''min'') = Some (PNum (Fin (q / p)))
                    \<and> r (''log_ratio_'' @ str_int N @ ''min'') =
                        (if 0 < q / p then Some (PNum (Fin (ln (q / p)))) else None))"
  proof (intro exI conjI)
    show "calculate_ratios self pre_results post_results = Inr r" by (rule res)
    show "r ''ratios_valid'' = Some (PBool True)" by (simp add: r_def)
    show "\<forall>N \<in> set (post_windows self). \<forall>q.
                    truthy (get post_results (''post_'' @ str_int N @ ''min'' @ ''_valid'') (PBool False)) \<longrightarrow>
                    get post_results (''post_'' @ str_int N @ ''min'' @ ''_price_movement'') (PNum (Fin 0))
                      = PNum (Fin q) \<longrightarrow>
                    r (''ratio_'' @ str_int N @ ''min'') = Some (PNum (Fin (q / p)))
                    \<and> r (''log_ratio_'' @ str_int N @ ''min'') =
                        (if 0 < q / p then Some (PNum (Fin (ln (q / p)))) else None)"
      unfolding keep using vals by simp
  qed
qed

text \<open>
  C10. Whenever \<open>calculate_ratios\<close> returns a result with \<open>ratios_valid\<close> true, the
  result holds \<open>direction_consistency_Nmin\<close> for every configured post window \<open>N\<close>,
  computed from the pre direction and the post direction of the window with a missing
  direction read as \<open>neutral\<close>: a window without a direction gets 0.5, and a window
  marked invalid has no \<open>ratio_Nmin\<close> (and no \<open>log_ratio_Nmin\<close>).
\<close>

theorem calculate_ratios_direction_consistency:
  assumes res: "calculate_ratios self pre_results post_results = Inr r"
    and valid: "r ''ratios_valid'' = Some (PBool True)"
  shows "\<forall>N \<in> set (post_windows self).
           r (''direction_consistency_'' @ str_int N @ ''min'') =
             Some (direction_consistency
                     (get pre_results ''movement_direction'' (PStr ''neutral''))
                     (get post_results (''post_'' @ str_int N @ ''min'' @ ''_movement_direction'')
                        (PStr ''neutral'')))
           \<and> (post_results (''post_'' @ str_int N @ ''min'' @ ''_movement_direction'') = None \<longrightarrow>
                r (''direction_consistency_'' @ str_int N @ ''min'') = Some (PNum (Fin 0.5)))
           \<and> (\<not> truthy (get post_results (''post_'' @ str_int N @ ''min'' @ ''_valid'') (PBool False)) \<longrightarrow>
                r (''ratio_'' @ str_int N @ ''min'') = None
                \<and> r (''log_ratio_'' @ str_int N @ ''min'') = None)"
proof
  fix N assume N: "N \<in> set (post_windows self)"
  let ?pre_direction = "get pre_results ''movement_direction'' (PStr ''neutral'')"
  let ?pre_movement = "get pre_results ''price_movement'' (PNum (Fin 0))"
  obtain ratios where loop: "ratio_loop post_results ?pre_movement (post_windows self) Map.empty = Inr ratios"
    and r: "r = (consistency_loop post_results ?pre_direction (post_windows self) ratios)
                  (''ratios_valid'' \<mapsto> PBool True)"
    using res valid
    by (auto simp: calculate_ratios_def Let_def split: if_splits sum.splits)
  have dc: "r (''direction_consistency_'' @ str_int N @ ''min'') =
             Some (direction_consistency ?pre_direction
                     (get post_results (''post_'' @ str_int N @ ''min'' @ ''_movement_direction'')
                        (PStr ''neutral'')))"
    using consistency_loop_value [OF N] by (simp add: r)
  have half: "direction_consistency ?pre_direction (PStr ''neutral'') = PNum (Fin 0.5)"
    by (simp add: direction_consistency_def py_eq_def)
  have omitted: "r (''ratio_'' @ str_int N @ ''min'') = None
                \<and> r (''log_ratio_'' @ str_int N @ ''min'') = None"
    if inv: "\<not> truthy (get post_results (''post_'' @ str_int N @ ''min'' @ ''_valid'') (PBool False))"
  proof -
    have "ratios k = Map.empty k"
      if "k = ''ratio_'' @ str_int N @ ''min'' \<or> k = ''log_ratio_'' @ str_int N @ ''min''" for k
      using that inv by (intro ratio_loop_untouched [OF loop]) auto
    then show ?thesis
      by (simp add: r consistency_loop_untouched)
  qed
  show "r (''direction_consistency_'' @ str_int N @ ''min'') =
             Some (direction_consistency ?pre_direction
                     (get post_results (''post_'' @ str_int N @ ''min'' @ ''_movement_direction'')
                        (PStr ''neutral'')))
           \<and> (post_results (''post_'' @ str_int N @ ''min'' @ ''_movement_direction'') = None \<longrightarrow>
                r (''direction_consistency_'' @ str_int N @ ''min'') = Some (PNum (Fin 0.5)))
           \<and> (\<not> truthy (get post_results (''post_'' @ str_int N @ ''min'' @ ''_valid'') (PBool False)) \<longrightarrow>
                r (''ratio_'' @ str_int N @ ''min'') = None
                \<and> r (''log_ratio_'' @ str_int N @ ''min'') = None)"
    using dc half omitted by (auto simp: get_def)
qed

lemma str_int_5: "str_int 5 = ''5''"
  by code_simp

lemma str_int_15: "str_int 15 = ''15''"
  by code_simp

text \<open>
  C4, as stated, fails where the pre-event price movement is NaN. The two pivots of
  the 5 minutes before the event have no price, so the pre-event result is valid with
  the movement NaN; the two pivots of the 5 minutes after it have the prices 1 and 3.
  By the claim the ratio is the quotient 2 / NaN, which is NaN, and there is no
  logarithm, NaN not being positive. The source divides only under the guard
  \<open>pre_movement > 0\<close> and reports \<open>float('inf')\<close> otherwise: the result of
  \<open>analyze_indicator\<close> holds the ratio and its logarithm, both infinite.
\<close>

theorem calculate_ratios_nan_counterexample:
  "snd (analyze_pre_event \<lparr>pre_window = 5, post_windows = [5]\<rparr> epoch_ns
          [(''DateTime_UTC'', PTime (Some 600000000000))]
          [(''start_time_dt'', DatetimeS [Some 360000000000, Some 480000000000,
                                          Some 660000000000, Some 780000000000]),
           (''price'', FloatS [None, None, Some 1, Some 3])]) ''price_movement''
     = Some (PNum NaN)
   \<and> snd (analyze_post_event \<lparr>pre_window = 5, post_windows = [5]\<rparr> epoch_ns
          [(''DateTime_UTC'', PTime (Some 600000000000))]
          [(''start_time_dt'', DatetimeS [Some 360000000000, Some 480000000000,
                                          Some 660000000000, Some 780000000000]),
           (''price'', FloatS [None, None, Some 1, Some 3])]) ''post_5min_price_movement''
     = Some (PNum (Fin 2))
   \<and> \<not> isl (snd (analyze_indicator \<lparr>pre_window = 5, post_windows = [5]\<rparr> epoch_ns
          [(''DateTime_UTC'', PTime (Some 600000000000))]
          [(''start_time_dt'', DatetimeS [Some 360000000000, Some 480000000000,
                                          Some 660000000000, Some 780000000000]),
           (''price'', FloatS [None, None, Some 1, Some 3])]))
   \<and> projr (snd (analyze_indicator \<lparr>pre_window = 5, post_windows = [5]\<rparr> epoch_ns
          [(''DateTime_UTC'', PTime (Some 600000000000))]
          [(''start_time_dt'', DatetimeS [Some 360000000000, Some 480000000000,
                                          Some 660000000000, Some 780000000000]),
           (''price'', FloatS [None, None, Some 1, Some 3])])) ''ratios_valid''
     = Some (PBool True)
   \<and> projr (snd (analyze_indicator \<lparr>pre_window = 5, post_windows = [5]\<rparr> epoch_ns
          [(''DateTime_UTC'', PTime (Some 600000000000))]
          [(''start_time_dt'', DatetimeS [Some 360000000000, Some 480000000000,
                                          Some 660000000000, Some 780000000000]),
           (''price'', FloatS [None, None, Some 1, Some 3])])) ''ratio_5min''
     = Some (PNum PosInf)
   \<and> projr (snd (analyze_indicator \<lparr>pre_window = 5, post_windows = [5]\<rparr> epoch_ns
          [(''DateTime_UTC'', PTime (Some 600000000000))]
          [(''start_time_dt'', DatetimeS [Some 360000000000, Some 480000000000,
                                          Some 660000000000, Some 780000000000]),
           (''price'', FloatS [None, None, Some 1, Some 3])])) ''log_ratio_5min''
     = Some (PNum PosInf)
   \<and> py_truediv (PNum (Fin 2)) (PNum NaN) = Inr (PNum NaN)"
proof -
  let ?S = "\<lparr>pre_window = 5, post_windows = [5]\<rparr>"
  let ?row = "[(''DateTime_UTC'', PTime (Some 600000000000))]"
  let ?df = "[(''start_time_dt'', DatetimeS [Some 360000000000, Some 480000000000,
                                          Some 660000000000, Some 780000000000]),
           (''price'', FloatS [None, None, Some 1, Some 3])]"
  define pre where "pre = snd (analyze_pre_event ?S epoch_ns ?row ?df)"
  define post where "post = snd (analyze_post_event ?S epoch_ns ?row ?df)"
  have f1: "fst (analyze_pre_event ?S epoch_ns ?row ?df) = ?df"
    by code_simp
  have f2: "fst (analyze_post_event ?S epoch_ns ?row ?df) = ?df"
    by code_simp
  have p1: "pre ''pre_event_valid'' = Some (PBool True)"
    unfolding pre_def by code_simp
  have p2: "pre ''price_movement'' = Some (PNum NaN)"
    unfolding pre_def by code_simp
  have q1: "post ''post_event_valid'' = Some (PBool True)"
    unfolding post_def by code_simp
  have q2: "post ''post_5min_valid'' = Some (PBool True)"
    unfolding post_def by code_simp
  have q3: "post ''post_5min_price_movement'' = Some (PNum (Fin 2))"
    unfolding post_def by code_simp
  have pre_eq: "analyze_pre_event ?S epoch_ns ?row ?df = (?df, pre)"
    using f1 by (simp add: pre_def prod_eq_iff)
  have post_eq: "analyze_post_event ?S epoch_ns ?row ?df = (?df, post)"
    using f2 by (simp add: post_def prod_eq_iff)
  obtain r where r: "calculate_ratios ?S pre post = Inr r"
    and rv: "r ''ratios_valid'' = Some (PBool True)"
    and rr: "\<forall>N \<in> set (post_windows ?S).
                 truthy (get post (''post_'' @ str_int N @ ''min'' @ ''_valid'') (PBool False)) \<longrightarrow>
                 r (''ratio_'' @ str_int N @ ''min'') = Some (PNum PosInf)
                 \<and> r (''log_ratio_'' @ str_int N @ ''min'') = Some (PNum PosInf)"
    using calculate_ratios_nan [of pre post ?S] p1 p2 q1 by (auto simp: get_def)
  have r5: "r ''ratio_5min'' = Some (PNum PosInf)" "r ''log_ratio_5min'' = Some (PNum PosInf)"
    using rr q2 by (simp_all add: get_def str_int_5)
  have res: "analyze_indicator ?S epoch_ns ?row ?df =
               (?df, Inr (add_missing ?row ((pre ++ post) ++ r)))"
    using p1 q1 r by (simp add: analyze_indicator_def pre_eq post_eq get_def)
  have k: "projr (snd (analyze_indicator ?S epoch_ns ?row ?df)) key = Some v" if "r key = Some v" for key v
    unfolding res using that by (simp add: add_missing_keeps)
  show ?thesis
    using p2 q3 k [OF rv] k [OF r5(1)] k [OF r5(2)]
    unfolding pre_def post_def
    by (simp add: res py_truediv_def num_div_def)
qed

theorem calculate_ratios_invalid_or_ratio_witness:
  "(\<exists>r. calculate_ratios \<lparr>pre_window = 5, post_windows = [5]\<rparr>
            [''pre_event_valid'' \<mapsto> PBool True, ''price_movement'' \<mapsto> PNum (Fin 0)]
            [''post_event_valid'' \<mapsto> PBool True] = Inr r
        \<and> r ''ratios_valid'' = Some (PBool False))
   \<and> (\<exists>r. calculate_ratios \<lparr>pre_window = 5, post_windows = [5]\<rparr>
            [''pre_event_valid'' \<mapsto> PBool True, ''price_movement'' \<mapsto> PNum (Fin 2)]
            [''post_event_valid'' \<mapsto> PBool True, ''post_5min_valid'' \<mapsto> PBool True,
             ''post_5min_price_movement'' \<mapsto> PNum (Fin 4)] = Inr r
        \<and> r ''ratios_valid'' = Some (PBool True)
        \<and> r ''ratio_5min'' = Some (PNum (Fin 2))
        \<and> r ''log_ratio_5min'' = Some (PNum (Fin (ln 2))))
   \<and> (\<exists>r. calculate_ratios \<lparr>pre_window = 5, post_windows = [5]\<rparr>
            [''pre_event_valid'' \<mapsto> PBool True, ''price_movement'' \<mapsto> PNum NaN]
            [''post_event_valid'' \<mapsto> PBool True, ''post_5min_valid'' \<mapsto> PBool True,
             ''post_5min_price_movement'' \<mapsto> PNum (Fin 4)] = Inr r
        \<and> r ''ratios_valid'' = Some (PBool True)
        \<and> r ''ratio_5min'' = Some (PNum PosInf)
        \<and> r ''log_ratio_5min'' = Some (PNum PosInf))"
proof (intro conjI)
  show "\<exists>r. calculate_ratios \<lparr>pre_window = 5, post_windows = [5]\<rparr>
            [''pre_event_valid'' \<mapsto> PBool True, ''price_movement'' \<mapsto> PNum (Fin 0)]
            [''post_event_valid'' \<mapsto> PBool True] = Inr r
        \<and> r ''ratios_valid'' = Some (PBool False)"
    using calculate_ratios_invalid_or_ratio
      [where pre_results = "[''pre_event_valid'' \<mapsto> PBool True, ''price_movement'' \<mapsto> PNum (Fin 0)]"
         and post_results = "[''post_event_valid'' \<mapsto> PBool True]"
         and self = "\<lparr>pre_window = 5, post_windows = [5]\<rparr>"]
    by (simp add: get_def py_eq_def num_eq_def)
  show "\<exists>r. calculate_ratios \<lparr>pre_window = 5, post_windows = [5]\<rparr>
            [''pre_event_valid'' \<mapsto> PBool True, ''price_movement'' \<mapsto> PNum (Fin 2)]
            [''post_event_valid'' \<mapsto> PBool True, ''post_5min_valid'' \<mapsto> PBool True,
             ''post_5min_price_movement'' \<mapsto> PNum (Fin 4)] = Inr r
        \<and> r ''ratios_valid'' = Some (PBool True)
        \<and> r ''ratio_5min'' = Some (PNum (Fin 2))
        \<and> r ''log_ratio_5min'' = Some (PNum (Fin (ln 2)))"
    using calculate_ratios_invalid_or_ratio
      [where pre_results = "[''pre_event_valid'' \<mapsto> PBool True, ''price_movement'' \<mapsto> PNum (Fin 2)]"
         and post_results = "[''post_event_valid'' \<mapsto> PBool True, ''post_5min_valid'' \<mapsto> PBool True,
             ''post_5min_price_movement'' \<mapsto> PNum (Fin 4)]"
         and p = 2 and self = "\<lparr>pre_window = 5, post_windows = [5]\<rparr>"]
    by (simp add: get_def str_int_5)
  show "\<exists>r. calculate_ratios \<lparr>pre_window = 5, post_windows = [5]\<rparr>
            [''pre_event_valid'' \<mapsto> PBool True, ''price_movement'' \<mapsto> PNum NaN]
            [''post_event_valid'' \<mapsto> PBool True, ''post_5min_valid'' \<mapsto> PBool True,
             ''post_5min_price_movement'' \<mapsto> PNum (Fin 4)] = Inr r
        \<and> r ''ratios_valid'' = Some (PBool True)
        \<and> r ''ratio_5min'' = Some (PNum PosInf)
        \<and> r ''log_ratio_5min'' = Some (PNum PosInf)"
    using calculate_ratios_invalid_or_ratio
      [where pre_results = "[''pre_event_valid'' \<mapsto> PBool True, ''price_movement'' \<mapsto> PNum NaN]"
         and post_results = "[''post_event_valid'' \<mapsto> PBool True, ''post_5min_valid'' \<mapsto> PBool True,
             ''post_5min_price_movement'' \<mapsto> PNum (Fin 4)]"
         and self = "\<lparr>pre_window = 5, post_windows = [5]\<rparr>"]
    by (simp add: get_def str_int_5)
qed

theorem calculate_ratios_direction_consistency_witness:
  "projr (calculate_ratios \<lparr>pre_window = 5, post_windows = [5, 15]\<rparr>
            [''pre_event_valid'' \<mapsto> PBool True, ''price_movement'' \<mapsto> PNum (Fin 2),
             ''movement_direction'' \<mapsto> PStr ''up'']
            [''post_event_valid'' \<mapsto> PBool True, ''post_5min_valid'' \<mapsto> PBool True,
             ''post_5min_price_movement'' \<mapsto> PNum (Fin 4),
             ''post_5min_movement_direction'' \<mapsto> PStr ''up'',
             ''post_15min_valid'' \<mapsto> PBool False]) ''direction_consistency_15min''
     = Some (PNum (Fin 0.5))
   \<and> projr (calculate_ratios \<lparr>pre_window = 5, post_windows = [5, 15]\<rparr>
            [''pre_event_valid'' \<mapsto> PBool True, ''price_movement'' \<mapsto> PNum (Fin 2),
             ''movement_direction'' \<mapsto> PStr ''up'']
            [''post_event_valid'' \<mapsto> PBool True, ''post_5min_valid'' \<mapsto> PBool True,
             ''post_5min_price_movement'' \<mapsto> PNum (Fin 4),
             ''post_5min_movement_direction'' \<mapsto> PStr ''up'',
             ''post_15min_valid'' \<mapsto> PBool False]) ''ratio_15min'' = None
   \<and> projr (calculate_ratios \<lparr>pre_window = 5, post_windows = [5, 15]\<rparr>
            [''pre_event_valid'' \<mapsto> PBool True, ''price_movement'' \<mapsto> PNum (Fin 2),
             ''movement_direction'' \<mapsto> PStr ''up'']
            [''post_event_valid'' \<mapsto> PBool True, ''post_5min_valid'' \<mapsto> PBool True,
             ''post_5min_price_movement'' \<mapsto> PNum (Fin 4),
             ''post_5min_movement_direction'' \<mapsto> PStr ''up'',
             ''post_15min_valid'' \<mapsto> PBool False]) ''direction_consistency_5min''
     = Some (PNum (Fin 1))"
proof -
  let ?self = "\<lparr>pre_window = 5, post_windows = [5, 15]\<rparr>"
  let ?pre = "[''pre_event_valid'' \<mapsto> PBool True, ''price_movement'' \<mapsto> PNum (Fin 2),
             ''movement_direction'' \<mapsto> PStr ''up'']"
  let ?post = "[''post_event_valid'' \<mapsto> PBool True, ''post_5min_valid'' \<mapsto> PBool True,
             ''post_5min_price_movement'' \<mapsto> PNum (Fin 4),
             ''post_5min_movement_direction'' \<mapsto> PStr ''up'',
             ''post_15min_valid'' \<mapsto> PBool False]"
  have ok: "\<not> isl (calculate_ratios ?self ?pre ?post)"
    by (simp add: calculate_ratios_def Let_def get_def py_eq_def num_eq_def py_gt0_def
          py_truediv_def num_div_def str_int_5 str_int_15)
  then have res: "calculate_ratios ?self ?pre ?post = Inr (projr (calculate_ratios ?self ?pre ?post))"
    by (metis sum.collapse(2))
  have valid: "projr (calculate_ratios ?self ?pre ?post) ''ratios_valid'' = Some (PBool True)"
    by (simp add: calculate_ratios_def Let_def get_def py_eq_def num_eq_def py_gt0_def
          py_truediv_def num_div_def str_int_5 str_int_15)
  show ?thesis
    using calculate_ratios_direction_consistency [OF res valid]
    by (simp add: calculate_ratios_def Let_def get_def py_eq_def num_eq_def py_gt0_def
          py_truediv_def num_div_def str_int_5 str_int_15 direction_consistency_def)
qed

section \<open>Daily volatility: the cells\<close>

lemma map_of_set_col:
  "map_of (set_col df c s) c' = (if c' = c then Some s else map_of df c')"
  by (induction df) auto

lemma nrows_set_col_any:
  assumes "df \<noteq> []" and "slen s = nrows df"
  shows "nrows (set_col df c s) = nrows df"
  using assms by (cases df) (auto simp: nrows_def)

lemma wf_frame_set_col_any:
  assumes "wf_frame df" and "df \<noteq> []" and "slen s = nrows df"
  shows "wf_frame (set_col df c s)"
  unfolding wf_frame_def list_all_iff
proof (intro ballI, clarify)
  fix n t assume "(n, t) \<in> set (set_col df c s)"
  then have "(n, t) \<in> set df \<or> t = s"
    using set_set_col by blast
  then show "slen t = nrows (set_col df c s)"
    using assms wf_frame_slen nrows_set_col_any by metis
qed

lemma remdups_map_inj: "inj f \<Longrightarrow> remdups (map f xs) = map f (remdups xs)"
  by (induction xs) (auto simp: inj_image_mem_iff)

lemma unique_map_Some: "unique (map Some xs) = map Some (unique xs)"
  by (simp add: unique_def rev_map remdups_map_inj)

lemma set_unique [simp]: "set (unique xs) = set xs"
  by (simp add: unique_def)

lemma distinct_unique [simp]: "distinct (unique xs)"
  by (simp add: unique_def)

lemma pick_map_mask:
  "pick (map Q ts) ps = map snd (filter (\<lambda>(t, p). Q t) (zip ts ps))"
proof -
  have "zip (map Q ts) ps = map (\<lambda>(t, p). (Q t, p)) (zip ts ps)"
    by (simp add: zip_map1)
  then show ?thesis
    by (simp add: pick_def filter_map comp_def case_prod_unfold)
qed

lemma length_pick_same:
  assumes "length xs = length ys"
  shows "length (pick m xs) = length (pick m ys)"
  using pick_map_nth [of xs "length ys" m] pick_map_nth [of ys "length ys" m] assms
  by simp

lemma window_in_day:
  assumes "0 \<le> s" and "e \<le> 24"
    and "d * day_ns + s * hour_ns \<le> t" and "t < d * day_ns + e * hour_ns"
  shows "t div day_ns = d"
proof -
  have "0 \<le> t - d * day_ns" "t - d * day_ns < day_ns"
    using assms by (simp_all add: day_ns_def hour_ns_def)
  moreover have "t = day_ns * d + (t - d * day_ns)"
    by simp
  ultimately show ?thesis
    by (intro int_div_pos_eq [where r = "t - d * day_ns"]) simp_all
qed

lemma fixed_window_bounds:
  "(s, e) \<in> set FIXED_TIME_WINDOWS_JST \<Longrightarrow> 0 \<le> s \<and> e \<le> 24"
  by (auto simp: FIXED_TIME_WINDOWS_JST_def)

lemma map_of_map_key:
  assumes "x \<in> set xs"
  shows "map_of (map (\<lambda>d. (d, f d)) xs) x = Some (f x)"
  using assms by (induction xs) auto

lemma map_of_map_name:
  assumes "w \<in> set ws" and "inj_on name (set ws)"
  shows "map_of (map (\<lambda>w. (name w, val w)) ws) (name w) = Some (val w)"
  using assms by (induction ws) (auto simp: inj_on_def)

lemma volatility_col_name_inj:
  "inj_on (\<lambda>(s, e). volatility_col_name s e) (set FIXED_TIME_WINDOWS_JST)"
proof -
  have "distinct (map (\<lambda>(s, e). volatility_col_name s e) FIXED_TIME_WINDOWS_JST)"
    by code_simp
  then show ?thesis
    by (simp add: distinct_map)
qed

lemma smax_map_Some: "P \<noteq> [] \<Longrightarrow> smax (map Some P) = Some (Max (set P))"
  using smax_Max [of "map Some P"] by (simp add: dropna_def comp_def)

lemma smin_map_Some: "P \<noteq> [] \<Longrightarrow> smin (map Some P) = Some (Min (set P))"
  using smin_Min [of "map Some P"] by (simp add: dropna_def comp_def)

lemma set_col_same: "map_of df c = Some s \<Longrightarrow> set_col df c s = df"
  by (induction df) (auto split: if_splits)

lemma map_of_columns: "map_of df c = Some s \<Longrightarrow> c \<in> set (columns df)"
  by (metis columns_def domI dom_map_of_conv_image_fst set_map)

lemma numeric_spick:
  "Option.bind (Some (spick m s)) numeric = map_option (pick m) (numeric s)"
  by (cases s) (simp_all add: pick_map)

lemma daily_data_row_map:
  assumes "\<forall>w \<in> set ws. window_volatility df d w = Inr (name w, val w)"
  shows "daily_data_row df d ws = Inr (map (\<lambda>w. (name w, val w)) ws)"
  using assms by (induction ws) simp_all

lemma daily_rows_map:
  assumes "\<forall>d \<in> set ds. daily_data_row df d FIXED_TIME_WINDOWS_JST = Inr (row d)"
  shows "daily_rows df ds = Inr (map (\<lambda>d. (d, row d)) ds)"
  using assms by (induction ds) simp_all

text \<open>The cell of the date NaT: no row matches.\<close>

lemma window_volatility_NaT:
  assumes wf: "wf_frame df2"
    and tcol: "map_of df2 ''start_time_jst'' = Some (DatetimeS ts)"
    and dcol: "map_of df2 ''date_jst'' = Some (DateS ds)"
  shows "window_volatility df2 None (s, e) = Inr (volatility_col_name s e, None)"
proof -
  have "pick (map (\<lambda>(t, d). window_mask None s e t d) (zip ts ds)) [0..<nrows df2] = []"
    by (intro pick_all_False) (auto simp: window_mask_def)
  then have "nrows (select (map (\<lambda>(t, d). window_mask None s e t d) (zip ts ds)) df2) = 0"
    by (simp add: nrows_select [OF wf])
  then show ?thesis
    by (simp add: tcol dcol Let_def)
qed

text \<open>The cell of one date and one segment, on the table with its date column.\<close>

lemma window_volatility_cell:
  assumes wf: "wf_frame df2"
    and tcol: "map_of df2 ''start_time_jst'' = Some (DatetimeS ts)"
    and dcol: "map_of df2 ''date_jst'' = Some (DateS (map date_of ts))"
    and pcol: "map_of df2 ''start_price'' = Some pc"
    and num: "numeric pc = Some prices"
    and bounds: "0 \<le> s" "e \<le> 24"
  shows "window_volatility df2 (Some d) (s, e) =
           Inr (volatility_col_name s e,
                (let known = dropna (segment_prices d (s, e) ts prices)
                 in if known = [] then None
                    else Some (Max (set known) - Min (set known))))"
proof -
  let ?Q = "\<lambda>t. case t of None \<Rightarrow> False
                  | Some x \<Rightarrow> d * day_ns + s * hour_ns \<le> x \<and> x < d * day_ns + e * hour_ns"
  define bmask where "bmask = map (\<lambda>(t, dd). window_mask (Some d) s e t dd) (zip ts (map date_of ts))"
  define matching where "matching = segment_prices d (s, e) ts prices"
  have len_t: "length ts = nrows df2"
    using wf_frame_map_of [OF wf tcol] by simp
  have len_p: "length prices = nrows df2"
    using wf_frame_map_of [OF wf pcol] num by (cases pc) auto
  have z: "zip ts (map date_of ts) = map (\<lambda>t. (t, date_of t)) ts"
    by (induction ts) simp_all
  have q: "window_mask (Some d) s e t (date_of t) = ?Q t" for t
  proof (cases t)
    case None
    then show ?thesis by (simp add: window_mask_def)
  next
    case (Some x)
    show ?thesis
      using window_in_day [OF bounds, of d x]
      by (auto simp: Some window_mask_def date_of_def Let_def)
  qed
  have bmask: "bmask = map ?Q ts"
    unfolding bmask_def z by (simp add: q comp_def)
  have picked: "pick bmask prices = matching"
    unfolding bmask matching_def segment_prices_def by (simp add: pick_map_mask)
  have n: "nrows (select bmask df2) = length matching"
  proof -
    have "length (pick bmask [0..<nrows df2]) = length (pick bmask prices)"
      using len_p by (intro length_pick_same) simp
    then show ?thesis
      by (simp add: nrows_select [OF wf] picked)
  qed
  have incols: "''start_price'' \<in> set (columns df2)"
    using pcol by (rule map_of_columns)
  have price: "Option.bind (map_of (select bmask df2) ''start_price'') numeric = Some matching"
    using numeric_spick [of bmask pc] by (simp add: map_of_select pcol num picked)
  have wv: "window_volatility df2 (Some d) (s, e) =
          (let window_data = select bmask df2
           in if nrows window_data \<noteq> 0 \<and> ''start_price'' \<in> set (columns window_data) then
                (if 1 \<le> nrows window_data then
                   (case Option.bind (map_of window_data ''start_price'') numeric of
                      None \<Rightarrow> Inl TypeError
                    | Some prices \<Rightarrow>
                        Inr (volatility_col_name s e, fsub (smax prices) (smin prices)))
                 else Inr (volatility_col_name s e, None))
              else Inr (volatility_col_name s e, None))"
    by (simp add: tcol dcol Let_def bmask_def split: option.splits)
  have "window_volatility df2 (Some d) (s, e) =
           Inr (volatility_col_name s e,
                if dropna matching = [] then None
                else Some (Max (set (dropna matching)) - Min (set (dropna matching))))"
  proof (cases "matching = []")
    case True
    then show ?thesis
      unfolding wv using n by (simp add: Let_def dropna_def)
  next
    case False
    then have pos: "nrows (select bmask df2) \<noteq> 0" "1 \<le> nrows (select bmask df2)"
      using n by (simp_all add: Suc_le_eq)
    show ?thesis
    proof (cases "dropna matching = []")
      case True
      then show ?thesis
        unfolding wv using pos incols
        by (simp add: Let_def price smax_def smin_def fsub_def)
    next
      case known: False
      show ?thesis
        unfolding wv using pos incols known
        by (simp add: Let_def price smax_Max smin_Min fsub_def)
    qed
  qed
  then show ?thesis
    unfolding matching_def Let_def .
qed


text \<open>
  C5, as amended. On a pivot table with a \<open>start_time_jst\<close> column of timestamps
  (or one that \<open>pd.to_datetime\<close> converts) and a numeric \<open>start_price\<close> column, the
  function returns one row per date present in the data. The cell of a date \<open>d\<close> and a
  day-segment \<open>(s, e)\<close> is computed from the \<open>start_price\<close> of the pivots whose start
  time lies in \<open>[d + s hours, d + e hours)\<close>, and from no other column: it is the
  maximum minus the minimum of those of these prices that are not NaN, and NaN when
  there is none. So without a matching pivot the cell is NaN, with exactly one that
  has a price it is 0, and with exactly one whose price is NaN it is NaN. The pivots
  without a start time (NaT) match no segment and add a row of their own, of date NaT,
  whose cells are all NaN.
\<close>

theorem daily_fixed_window_volatility_cells:
  assumes wf: "wf_frame df"
    and tcol: "map_of df ''start_time_jst'' = Some tc"
    and conv: "tc = DatetimeS ts \<or> (\<forall>ts'. tc \<noteq> DatetimeS ts') \<and> to_datetime conv tc = Inr ts"
    and pcol: "map_of df ''start_price'' = Some pc"
    and num: "numeric pc = Some prices"
  shows "\<exists>df2 rws.
           calculate_daily_fixed_window_volatility conv (Some df) = (Some df2, Inr rws)
         \<and> map fst rws = unique (map date_of ts)
         \<and> (\<forall>d. Some d \<in> set (map date_of ts) \<longrightarrow>
              (\<forall>(s, e) \<in> set FIXED_TIME_WINDOWS_JST.
                 \<exists>cells c. map_of rws (Some d) = Some cells
                   \<and> map_of cells (volatility_col_name s e) = Some c
                   \<and> c = (let known = dropna (segment_prices d (s, e) ts prices)
                          in if known = [] then None
                             else Some (Max (set known) - Min (set known)))
                   \<and> (segment_prices d (s, e) ts prices = [] \<longrightarrow> c = None)
                   \<and> (\<forall>p. segment_prices d (s, e) ts prices = [Some p] \<longrightarrow> c = Some 0)
                   \<and> (segment_prices d (s, e) ts prices = [None] \<longrightarrow> c = None)))
         \<and> (None \<in> set ts \<longrightarrow>
              (\<exists>cells. map_of rws None = Some cells
                 \<and> (\<forall>(s, e) \<in> set FIXED_TIME_WINDOWS_JST.
                       map_of cells (volatility_col_name s e) = Some None)))"
proof -
  define df1 where "df1 = set_col df ''start_time_jst'' (DatetimeS ts)"
  define df2 where "df2 = set_col df1 ''date_jst'' (DateS (map date_of ts))"
  define cell where "cell dv w =
      (case dv of
         None \<Rightarrow> None
       | Some d \<Rightarrow>
           (let known = dropna (segment_prices d w ts prices)
            in if known = [] then None
               else Some (Max (set known) - Min (set known))))"
    for dv :: "int option" and w :: "int \<times> int"
  define row where "row dv = map (\<lambda>w. (case w of (s, e) \<Rightarrow> volatility_col_name s e, cell dv w))
                              FIXED_TIME_WINDOWS_JST" for dv
  define ds where "ds = unique (map date_of ts)"
  have incols: "''start_time_jst'' \<in> set (columns df)" "''start_price'' \<in> set (columns df)"
    using tcol pcol map_of_columns by blast+
  then have ne: "df \<noteq> []" by (auto simp: columns_def)
  have len_t: "length ts = nrows df"
  proof -
    have "slen tc = nrows df"
      using wf_frame_map_of [OF wf tcol] .
    moreover have "length ts = slen tc"
      using conv length_to_datetime by auto
    ultimately show ?thesis by simp
  qed
  have converted:
    "(case map_of df ''start_time_jst'' of
        None \<Rightarrow> Inl KeyError
      | Some (DatetimeS ts) \<Rightarrow> Inr (df, ts)
      | Some s \<Rightarrow>
          (case to_datetime conv s of
             Inl e \<Rightarrow> Inl e
           | Inr ts \<Rightarrow> Inr (set_col df ''start_time_jst'' (DatetimeS ts), ts))) = Inr (df1, ts)"
  proof (cases "tc = DatetimeS ts")
    case True
    then have "df1 = df"
      using tcol by (simp add: df1_def set_col_same)
    then show ?thesis
      using tcol True by simp
  next
    case False
    then have "\<forall>ts'. tc \<noteq> DatetimeS ts'" "to_datetime conv tc = Inr ts"
      using conv by blast+
    then show ?thesis
      using tcol by (cases tc) (simp_all add: df1_def)
  qed
  have wf1: "wf_frame df1"
    unfolding df1_def using wf incols(1) len_t by (intro wf_frame_set_col) simp_all
  have n1: "nrows df1 = nrows df"
    unfolding df1_def using incols(1) len_t by (intro nrows_set_col) simp_all
  have ne1: "df1 \<noteq> []"
    unfolding df1_def using ne by (cases df) (auto split: if_splits)
  have wf2: "wf_frame df2"
    unfolding df2_def using wf1 ne1 len_t n1 by (intro wf_frame_set_col_any) simp_all
  have tcol2: "map_of df2 ''start_time_jst'' = Some (DatetimeS ts)"
    by (simp add: df2_def df1_def map_of_set_col)
  have pcol2: "map_of df2 ''start_price'' = Some pc"
    by (simp add: df2_def df1_def map_of_set_col pcol)
  have dcol2: "map_of df2 ''date_jst'' = Some (DateS (map date_of ts))"
    by (simp add: df2_def map_of_set_col)
  have wv: "window_volatility df2 dv w = Inr (case w of (s, e) \<Rightarrow> volatility_col_name s e, cell dv w)"
    if "w \<in> set FIXED_TIME_WINDOWS_JST" for dv w
  proof -
    obtain s e where w: "w = (s, e)" by (cases w)
    have b: "0 \<le> s" "e \<le> 24" using that fixed_window_bounds w by auto
    show ?thesis
    proof (cases dv)
      case None
      then show ?thesis
        unfolding w using window_volatility_NaT [OF wf2 tcol2 dcol2, of s e]
        by (simp add: cell_def)
    next
      case (Some d)
      then show ?thesis
        unfolding w using window_volatility_cell [OF wf2 tcol2 dcol2 pcol2 num b, of d]
        by (simp add: cell_def)
    qed
  qed
  have ddr: "daily_data_row df2 dv FIXED_TIME_WINDOWS_JST = Inr (row dv)" for dv
    unfolding row_def by (rule daily_data_row_map) (simp add: wv)
  have rows: "daily_rows df2 ds = Inr (map (\<lambda>d. (d, row d)) ds)"
    by (rule daily_rows_map) (simp add: ddr)
  have res: "calculate_daily_fixed_window_volatility conv (Some df) =
               (Some df2, Inr (map (\<lambda>d. (d, row d)) ds))"
  proof (cases "ds = []")
    case True
    then show ?thesis
      using incols
      by (simp add: calculate_daily_fixed_window_volatility_def converted Let_def
            ds_def [symmetric] df2_def [symmetric] del: map_map)
  next
    case False
    then show ?thesis
      using incols rows
      by (simp add: calculate_daily_fixed_window_volatility_def converted Let_def
            ds_def [symmetric] df2_def [symmetric] del: map_map)
  qed
  have lookup: "map_of (map (\<lambda>d. (d, row d)) ds) dv = Some (row dv)
              \<and> map_of (row dv) (volatility_col_name s e) = Some (cell dv (s, e))"
    if dv: "dv \<in> set (map date_of ts)" and w: "(s, e) \<in> set FIXED_TIME_WINDOWS_JST"
    for dv s e
  proof -
    have "dv \<in> set ds" using dv by (simp add: ds_def)
    then have r: "map_of (map (\<lambda>d. (d, row d)) ds) dv = Some (row dv)"
      by (rule map_of_map_key)
    have c: "map_of (row dv) (volatility_col_name s e) = Some (cell dv (s, e))"
      unfolding row_def
      using map_of_map_name [OF w volatility_col_name_inj, of "cell dv"]
      by simp
    show ?thesis using r c by simp
  qed
  show ?thesis
  proof (intro exI conjI)
    show "calculate_daily_fixed_window_volatility conv (Some df) =
               (Some df2, Inr (map (\<lambda>d. (d, row d)) ds))" by (rule res)
    show "map fst (map (\<lambda>d. (d, row d)) ds) = unique (map date_of ts)"
      by (simp add: ds_def comp_def)
    show "\<forall>d. Some d \<in> set (map date_of ts) \<longrightarrow>
              (\<forall>(s, e) \<in> set FIXED_TIME_WINDOWS_JST.
                 \<exists>cells c. map_of (map (\<lambda>d. (d, row d)) ds) (Some d) = Some cells
                   \<and> map_of cells (volatility_col_name s e) = Some c
                   \<and> c = (let known = dropna (segment_prices d (s, e) ts prices)
                          in if known = [] then None
                             else Some (Max (set known) - Min (set known)))
                   \<and> (segment_prices d (s, e) ts prices = [] \<longrightarrow> c = None)
                   \<and> (\<forall>p. segment_prices d (s, e) ts prices = [Some p] \<longrightarrow> c = Some 0)
                   \<and> (segment_prices d (s, e) ts prices = [None] \<longrightarrow> c = None))"
    proof (intro allI impI ballI, clarify)
      fix d s e
      assume d: "Some d \<in> set (map date_of ts)" and w: "(s, e) \<in> set FIXED_TIME_WINDOWS_JST"
      have c: "cell (Some d) (s, e) =
                 (let known = dropna (segment_prices d (s, e) ts prices)
                  in if known = [] then None
                     else Some (Max (set known) - Min (set known)))"
        by (simp add: cell_def)
      have c0: "segment_prices d (s, e) ts prices = [] \<longrightarrow> cell (Some d) (s, e) = None"
        by (simp add: c dropna_def)
      have c1: "\<forall>p. segment_prices d (s, e) ts prices = [Some p] \<longrightarrow> cell (Some d) (s, e) = Some 0"
        by (simp add: c dropna_def)
      have c2: "segment_prices d (s, e) ts prices = [None] \<longrightarrow> cell (Some d) (s, e) = None"
        by (simp add: c dropna_def)
      show "\<exists>cells c. map_of (map (\<lambda>d. (d, row d)) ds) (Some d) = Some cells
                   \<and> map_of cells (volatility_col_name s e) = Some c
                   \<and> c = (let known = dropna (segment_prices d (s, e) ts prices)
                          in if known = [] then None
                             else Some (Max (set known) - Min (set known)))
                   \<and> (segment_prices d (s, e) ts prices = [] \<longrightarrow> c = None)
                   \<and> (\<forall>p. segment_prices d (s, e) ts prices = [Some p] \<longrightarrow> c = Some 0)
                   \<and> (segment_prices d (s, e) ts prices = [None] \<longrightarrow> c = None)"
        using lookup [OF d w] c c0 c1 c2 by blast
    qed
    show "None \<in> set ts \<longrightarrow>
              (\<exists>cells. map_of (map (\<lambda>d. (d, row d)) ds) None = Some cells
                 \<and> (\<forall>(s, e) \<in> set FIXED_TIME_WINDOWS_JST.
                       map_of cells (volatility_col_name s e) = Some None))"
    proof
      assume "None \<in> set ts"
      then have "date_of None \<in> date_of ` set ts" by (rule imageI)
      then have nat: "None \<in> set (map date_of ts)" by (simp add: date_of_def)
      have "\<forall>(s, e) \<in> set FIXED_TIME_WINDOWS_JST.
              map_of (row None) (volatility_col_name s e) = Some None"
        using lookup [OF nat] by (auto simp: cell_def)
      moreover have "map_of (map (\<lambda>d. (d, row d)) ds) None = Some (row None)"
        using lookup [OF nat, of 0 3] by (simp add: FIXED_TIME_WINDOWS_JST_def)
      ultimately show "\<exists>cells. map_of (map (\<lambda>d. (d, row d)) ds) None = Some cells
                 \<and> (\<forall>(s, e) \<in> set FIXED_TIME_WINDOWS_JST.
                       map_of cells (volatility_col_name s e) = Some None)"
        by blast
    qed
  qed
qed


lemma volatility_col_names:
  "volatility_col_name 0 3 = ''Volatility_00_03_JST''"
  "volatility_col_name 3 6 = ''Volatility_03_06_JST''"
  "volatility_col_name 7 9 = ''Volatility_07_09_JST''"
  "volatility_col_name 9 12 = ''Volatility_09_12_JST''"
  by code_simp+

text \<open>
  C5, as stated, fails where a price is missing. Of the two pivots of this day the one
  at 01:00 has no \<open>start_price\<close>: it is the one pivot of the segment from 00 to 03, and
  the cell is NaN, not 0. (The pivot at 08:00 has a price, and its cell is 0.)
\<close>

theorem daily_fixed_window_volatility_nan_counterexample:
  "snd (calculate_daily_fixed_window_volatility epoch_ns
          (Some [(''start_time_jst'', DatetimeS [Some 3600000000000, Some 28800000000000]),
                 (''start_price'', FloatS [None, Some 7]),
                 (''end_price'', FloatS [Some 5, Some 9])]))
     = Inr [(Some 0,
             [(''Volatility_00_03_JST'', None),
              (''Volatility_03_06_JST'', None),
              (''Volatility_07_09_JST'', Some 0),
              (''Volatility_09_12_JST'', None),
              (''Volatility_12_15_JST'', None),
              (''Volatility_15_21_JST'', None),
              (''Volatility_21_24_JST'', None)])]
   \<and> length (segment_prices 0 (0, 3) [Some 3600000000000, Some 28800000000000] [None, Some 7]) = 1"
  by code_simp

theorem daily_fixed_window_volatility_cells_witness:
  "\<exists>df2 rws cells nat_cells.
     calculate_daily_fixed_window_volatility epoch_ns
       (Some [(''start_time_jst'',
                DatetimeS [Some 3600000000000, Some 7200000000000, None,
                           Some 28800000000000, Some 36000000000000]),
              (''start_price'', FloatS [Some 10, Some 13, Some 4, Some 7, None]),
              (''end_price'', FloatS [Some 13, Some 7, Some 50, Some 1, Some 2])])
       = (Some df2, Inr rws)
     \<and> map fst rws = [Some 0, None]
     \<and> map_of rws (Some 0) = Some cells
     \<and> map_of cells ''Volatility_00_03_JST'' = Some (Some 3)
     \<and> map_of cells ''Volatility_03_06_JST'' = Some None
     \<and> map_of cells ''Volatility_07_09_JST'' = Some (Some 0)
     \<and> map_of cells ''Volatility_09_12_JST'' = Some None
     \<and> map_of rws None = Some nat_cells
     \<and> map_of nat_cells ''Volatility_00_03_JST'' = Some None"
proof -
  let ?ts = "[Some 3600000000000, Some 7200000000000, None,
              Some 28800000000000, Some 36000000000000] :: int option list"
  let ?prices = "[Some 10, Some 13, Some 4, Some 7, None] :: real option list"
  let ?df = "[(''start_time_jst'', DatetimeS ?ts),
              (''start_price'', FloatS ?prices),
              (''end_price'', FloatS [Some 13, Some 7, Some 50, Some 1, Some 2])]"
  have wf: "wf_frame ?df"
    by (simp add: wf_frame_def nrows_def)
  have tcol: "map_of ?df ''start_time_jst'' = Some (DatetimeS ?ts)"
    by simp
  have pcol: "map_of ?df ''start_price'' = Some (FloatS ?prices)"
    by simp
  have num: "numeric (FloatS ?prices) = Some ?prices"
    by simp
  obtain df2 rws where res: "calculate_daily_fixed_window_volatility epoch_ns (Some ?df) = (Some df2, Inr rws)"
    and dates: "map fst rws = unique (map date_of ?ts)"
    and cells: "\<forall>d. Some d \<in> set (map date_of ?ts) \<longrightarrow>
              (\<forall>(s, e) \<in> set FIXED_TIME_WINDOWS_JST.
                 \<exists>cells c. map_of rws (Some d) = Some cells
                   \<and> map_of cells (volatility_col_name s e) = Some c
                   \<and> c = (let known = dropna (segment_prices d (s, e) ?ts ?prices)
                          in if known = [] then None
                             else Some (Max (set known) - Min (set known)))
                   \<and> (segment_prices d (s, e) ?ts ?prices = [] \<longrightarrow> c = None)
                   \<and> (\<forall>p. segment_prices d (s, e) ?ts ?prices = [Some p] \<longrightarrow> c = Some 0)
                   \<and> (segment_prices d (s, e) ?ts ?prices = [None] \<longrightarrow> c = None))"
    and nat: "None \<in> set ?ts \<longrightarrow>
              (\<exists>cells. map_of rws None = Some cells
                 \<and> (\<forall>(s, e) \<in> set FIXED_TIME_WINDOWS_JST.
                       map_of cells (volatility_col_name s e) = Some None))"
    using daily_fixed_window_volatility_cells [OF wf tcol disjI1 [OF refl] pcol num, of epoch_ns]
    by blast
  have d0: "Some 0 \<in> set (map date_of ?ts)"
    by (simp add: date_of_def day_ns_def)
  have w: "(0, 3) \<in> set FIXED_TIME_WINDOWS_JST" "(3, 6) \<in> set FIXED_TIME_WINDOWS_JST"
          "(7, 9) \<in> set FIXED_TIME_WINDOWS_JST" "(9, 12) \<in> set FIXED_TIME_WINDOWS_JST"
    by (simp_all add: FIXED_TIME_WINDOWS_JST_def)
  obtain c where c: "map_of rws (Some 0) = Some c"
    using cells [rule_format, OF d0 w(1)] by auto
  have c1: "map_of c ''Volatility_00_03_JST'' = Some (Some 3)"
    using cells [rule_format, OF d0 w(1)] c
    by (simp add: volatility_col_names segment_prices_def dropna_def day_ns_def hour_ns_def)
  have c2: "map_of c ''Volatility_03_06_JST'' = Some None"
    using cells [rule_format, OF d0 w(2)] c
    by (simp add: volatility_col_names segment_prices_def dropna_def day_ns_def hour_ns_def)
  have c3: "map_of c ''Volatility_07_09_JST'' = Some (Some 0)"
    using cells [rule_format, OF d0 w(3)] c
    by (simp add: volatility_col_names segment_prices_def dropna_def day_ns_def hour_ns_def)
  have c4: "map_of c ''Volatility_09_12_JST'' = Some None"
    using cells [rule_format, OF d0 w(4)] c
    by (simp add: volatility_col_names segment_prices_def dropna_def day_ns_def hour_ns_def)
  obtain n where n: "map_of rws None = Some n"
    and ncells: "\<forall>(s, e) \<in> set FIXED_TIME_WINDOWS_JST. map_of n (volatility_col_name s e) = Some None"
    using nat by auto
  have n1: "map_of n ''Volatility_00_03_JST'' = Some None"
    using bspec [OF ncells w(1)] by (simp add: volatility_col_names)
  have dts: "map fst rws = [Some 0, None]"
    unfolding dates by (simp add: unique_def date_of_def day_ns_def)
  show ?thesis
    by (rule exI [of _ df2], rule exI [of _ rws], rule exI [of _ c], rule exI [of _ n])
       (intro conjI res dts c c1 c2 c3 c4 n n1)
qed

section \<open>Propagation between time scales: the rows used\<close>

lemma propagation_loop_rows:
  assumes "\<forall>pr \<in> set pairs. propagation_pair df pr = Inr (G pr)"
  shows "propagation_loop df pairs acc =
           Inr (acc @ concat (map (\<lambda>pr. case G pr of None \<Rightarrow> [] | Some r \<Rightarrow> [r]) pairs))"
  using assms
proof (induction pairs arbitrary: acc)
  case Nil
  then show ?case by simp
next
  case (Cons pr rest)
  then show ?case by (cases "G pr") simp_all
qed

lemma propagation_loop_raises:
  assumes "\<exists>pr \<in> set pairs. isl (propagation_pair df pr)"
  shows "isl (propagation_loop df pairs acc)"
  using assms
proof (induction pairs arbitrary: acc)
  case Nil
  then show ?case by simp
next
  case (Cons pr rest)
  show ?case
  proof (cases "propagation_pair df pr")
    case (Inl e)
    then show ?thesis by simp
  next
    case (Inr r)
    then have "\<exists>pr \<in> set rest. isl (propagation_pair df pr)"
      using Cons.prems by auto
    then show ?thesis
      using Cons.IH Inr by (cases r) simp_all
  qed
qed

lemma dropna_map_fst:
  assumes "\<forall>(x, y) \<in> set zs. x \<noteq> None"
  shows "dropna (map fst zs) = map (the \<circ> fst) zs"
  using assms by (induction zs) (auto simp: dropna_def)

lemma dropna_map_snd:
  assumes "\<forall>(x, y) \<in> set zs. y \<noteq> None"
  shows "dropna (map snd zs) = map (the \<circ> snd) zs"
  using assms by (induction zs) (auto simp: dropna_def)

lemma np_mean_growth_ratios:
  "np_mean (growth_ratios sv lv) =
     (case filter (\<lambda>(x, y). x \<noteq> 0) (zip sv lv) of
        [] \<Rightarrow> None
      | nz \<Rightarrow> Some (sum_list (map (\<lambda>(x, y). y / x) nz) / real (length nz)))"
proof -
  have "dropna (map (\<lambda>(x, y). if x = 0 then None else Some (y / x)) zs) =
          map (\<lambda>(x, y). y / x) (filter (\<lambda>(x, y). x \<noteq> 0) zs)" for zs :: "(real \<times> real) list"
    by (induction zs) (auto simp: dropna_def)
  then have d: "dropna (growth_ratios sv lv) =
                  map (\<lambda>(x, y). y / x) (filter (\<lambda>(x, y). x \<noteq> 0) (zip sv lv))"
    by (simp add: growth_ratios_def)
  show ?thesis
    unfolding np_mean_def d
    by (cases "filter (\<lambda>(x, y). x \<noteq> 0) (zip sv lv)") simp_all
qed

text \<open>On a sample without NaN, the test of \<open>linregress\<close> says that all values are the same.\<close>

lemma linregress_raises_constant:
  assumes "dropna xs = sv" and "length xs = length sv" and "1 < length sv"
  shows "linregress_raises xs \<longleftrightarrow> (\<forall>v \<in> set sv. v = hd sv)"
proof -
  have ne: "dropna xs \<noteq> []" using assms by auto
  have fin: "finite (set sv)" "set sv \<noteq> {}" using assms by auto
  have "smax xs = smin xs \<longleftrightarrow> Max (set sv) = Min (set sv)"
    using smax_Max [OF ne] smin_Min [OF ne] assms(1) by simp
  also have "\<dots> \<longleftrightarrow> (\<forall>v \<in> set sv. v = hd sv)"
  proof
    assume eq: "Max (set sv) = Min (set sv)"
    have "v = Max (set sv)" if "v \<in> set sv" for v
    proof -
      have "Min (set sv) \<le> v" "v \<le> Max (set sv)" using that by simp_all
      then show ?thesis using eq by simp
    qed
    moreover have "hd sv \<in> set sv" using fin by (cases sv) auto
    ultimately show "\<forall>v \<in> set sv. v = hd sv" by metis
  next
    assume "\<forall>v \<in> set sv. v = hd sv"
    then have "set sv = {hd sv}" using fin by auto
    then show "Max (set sv) = Min (set sv)" by simp
  qed
  finally show ?thesis
    using assms by (simp add: linregress_raises_def)
qed

lemma propagation_pair_float:
  assumes wf: "wf_frame df"
    and scol: "map_of df (movement_col a) = Some (FloatS xs)"
    and lcol: "map_of df (movement_col b) = Some (FloatS ys)"
  shows "propagation_pair df (a, b) =
           (let valid = both_present xs ys
            in if length valid < 5 then Inr None
               else if \<forall>v \<in> set (map fst valid). v = fst (hd valid) then Inl ValueError
               else Inr (Some \<lparr>smaller_scale = a, larger_scale = b, count = length valid,
                          pearsonr_samples = (map fst valid, map snd valid),
                          avg_growth_ratio =
                            np_round 4
                              (case filter (\<lambda>(x, y). x \<noteq> 0) valid of
                                 [] \<Rightarrow> None
                               | nz \<Rightarrow> Some (sum_list (map (\<lambda>(x, y). y / x) nz) / real (length nz))),
                          linregress_samples = (map fst valid, map snd valid)\<rparr>))"
proof -
  let ?P = "\<lambda>(x :: real option, y :: real option). x \<noteq> None \<and> y \<noteq> None"
  define valid where "valid = filter ?P (zip xs ys)"
  define bmask where "bmask = map ?P (zip xs ys)"
  define bp where "bp = both_present xs ys"
  have bp: "bp = map (\<lambda>(x, y). (the x, the y)) valid"
    by (simp add: bp_def both_present_def valid_def)
  have len_bp: "length bp = length valid" by (simp add: bp)
  have fst_bp: "map fst bp = map (the \<circ> fst) valid"
    by (simp add: bp comp_def case_prod_unfold)
  have snd_bp: "map snd bp = map (the \<circ> snd) valid"
    by (simp add: bp comp_def case_prod_unfold)
  have zip_bp: "zip (map (the \<circ> fst) valid) (map (the \<circ> snd) valid) = bp"
    unfolding fst_bp [symmetric] snd_bp [symmetric] by (simp add: zip_map_fst_snd)
  have len_x: "length xs = nrows df"
    using wf_frame_map_of [OF wf scol] by simp
  have len_y: "length ys = nrows df"
    using wf_frame_map_of [OF wf lcol] by simp
  have m: "map (\<lambda>(a, b). a \<and> b) (zip (notna (FloatS xs)) (notna (FloatS ys))) = bmask"
    unfolding bmask_def by (auto simp: zip_map_map)
  have pz: "pick bmask (zip xs ys) = valid"
    unfolding bmask_def valid_def by (rule pick_map_self)
  have n: "nrows (select bmask df) = length valid"
  proof -
    have "length (pick bmask [0..<nrows df]) = length (pick bmask (zip xs ys))"
      using len_x len_y by (intro length_pick_same) simp
    then show ?thesis
      by (simp add: nrows_select [OF wf] pz)
  qed
  have px: "pick bmask xs = map fst valid"
  proof -
    have "pick bmask (map fst (zip xs ys)) = map fst (pick bmask (zip xs ys))"
      by (rule pick_map)
    then show ?thesis
      using len_x len_y by (simp add: pz)
  qed
  have py: "pick bmask ys = map snd valid"
  proof -
    have "pick bmask (map snd (zip xs ys)) = map snd (pick bmask (zip xs ys))"
      by (rule pick_map)
    then show ?thesis
      using len_x len_y by (simp add: pz)
  qed
  have dx: "dropna (map fst valid) = map fst bp"
    unfolding fst_bp by (rule dropna_map_fst) (auto simp: valid_def)
  have dy: "dropna (map snd valid) = map snd bp"
    unfolding snd_bp by (rule dropna_map_snd) (auto simp: valid_def)
  have sx: "Option.bind (map_of (select bmask df) (movement_col a)) numeric = Some (map fst valid)"
    by (simp add: map_of_select scol px)
  have sy: "Option.bind (map_of (select bmask df) (movement_col b)) numeric = Some (map snd valid)"
    by (simp add: map_of_select lcol py)
  have raises: "linregress_raises (map fst valid) \<longleftrightarrow> (\<forall>v \<in> set (map fst bp). v = fst (hd bp))"
    if "\<not> length valid < 5"
  proof -
    have "bp \<noteq> []" using that len_bp by auto
    then have hd: "hd (map fst bp) = fst (hd bp)" by (simp add: hd_map)
    have "linregress_raises (map fst valid) \<longleftrightarrow> (\<forall>v \<in> set (map fst bp). v = hd (map fst bp))"
      using that len_bp by (intro linregress_raises_constant [OF dx]) simp_all
    then show ?thesis by (simp only: hd)
  qed
  have mean: "np_mean (growth_ratios (map fst bp) (map snd bp)) =
     (case filter (\<lambda>(x, y). x \<noteq> 0) bp of
        [] \<Rightarrow> None
      | nz \<Rightarrow> Some (sum_list (map (\<lambda>(x, y). y / x) nz) / real (length nz)))"
    unfolding np_mean_growth_ratios by (simp add: zip_map_fst_snd)
  have "propagation_pair df (a, b) =
           (if length valid < 5 then Inr None
            else if \<forall>v \<in> set (map fst bp). v = fst (hd bp) then Inl ValueError
            else Inr (Some \<lparr>smaller_scale = a, larger_scale = b, count = length valid,
                       pearsonr_samples = (map fst bp, map snd bp),
                       avg_growth_ratio =
                         np_round 4
                           (case filter (\<lambda>(x, y). x \<noteq> 0) bp of
                              [] \<Rightarrow> None
                            | nz \<Rightarrow> Some (sum_list (map (\<lambda>(x, y). y / x) nz) / real (length nz))),
                       linregress_samples = (map fst bp, map snd bp)\<rparr>))"
  proof (cases "length valid < 5")
    case True
    then show ?thesis
      by (simp add: scol lcol m n Let_def del: notna.simps zip_map_map)
  next
    case False
    show ?thesis
      using False raises [OF False]
      by (simp add: scol lcol m n sx sy dx dy mean Let_def
               del: notna.simps zip_map_map set_map)
  qed
  then show ?thesis
    unfolding Let_def bp_def [symmetric] len_bp .
qed


lemma set_zip_tl:
  assumes "(a, b) \<in> set (zip xs (tl xs))"
  shows "a \<in> set xs \<and> b \<in> set xs"
  using assms by (metis list.sel(2) list.set_sel(2) set_zip_leftD set_zip_rightD)

text \<open>
  C7, as amended. On a table whose movement columns are float columns, consider the
  adjacent pairs of \<open>time_scales\<close> with both columns present, and for each the rows
  where both values are non-missing, a zero at the smaller scale included. A pair with
  fewer than 5 such rows is skipped. If, for some pair with at least 5, the values of
  the smaller scale are all the same, the regression raises and the result is the
  empty table. Otherwise the result has one row for each pair with at least 5 such
  rows, in the order of the pairs; its count, its correlation and its regression take
  all of these rows, and only the mean growth ratio leaves out the rows whose smaller
  value is zero.
\<close>

theorem analyze_propagation_effects_rows:
  assumes wf: "wf_frame analyzed_df"
    and cols: "\<forall>scale \<in> set (time_scales self). \<forall>s.
                 map_of analyzed_df (movement_col scale) = Some s \<longrightarrow> (\<exists>xs. s = FloatS xs)"
  shows "analyze_propagation_effects self analyzed_df =
           (if \<exists>(smaller, larger) \<in> set (zip (time_scales self) (tl (time_scales self))).
                 case (map_of analyzed_df (movement_col smaller),
                       map_of analyzed_df (movement_col larger)) of
                   (Some (FloatS xs), Some (FloatS ys)) \<Rightarrow>
                     5 \<le> length (both_present xs ys)
                     \<and> (\<forall>v \<in> set (map fst (both_present xs ys)). v = fst (hd (both_present xs ys)))
                 | _ \<Rightarrow> False
            then []
            else concat (map (\<lambda>(smaller, larger).
              case (map_of analyzed_df (movement_col smaller),
                    map_of analyzed_df (movement_col larger)) of
                (Some (FloatS xs), Some (FloatS ys)) \<Rightarrow>
                  (let valid = both_present xs ys
                   in if length valid < 5 then []
                      else [\<lparr>smaller_scale = smaller, larger_scale = larger, count = length valid,
                             pearsonr_samples = (map fst valid, map snd valid),
                             avg_growth_ratio =
                               np_round 4
                                 (case filter (\<lambda>(x, y). x \<noteq> 0) valid of
                                    [] \<Rightarrow> None
                                  | nz \<Rightarrow> Some (sum_list (map (\<lambda>(x, y). y / x) nz)
                                                   / real (length nz))),
                             linregress_samples = (map fst valid, map snd valid)\<rparr>])
              | _ \<Rightarrow> [])
            (zip (time_scales self) (tl (time_scales self)))))"
proof -
  define pairs where "pairs = zip (time_scales self) (tl (time_scales self))"
  define row where "row smaller larger valid =
     \<lparr>smaller_scale = smaller, larger_scale = larger, count = length valid,
      pearsonr_samples = (map fst valid, map snd valid),
      avg_growth_ratio =
        np_round 4
          (case filter (\<lambda>(x, y). x \<noteq> 0) valid of
             [] \<Rightarrow> None
           | nz \<Rightarrow> Some (sum_list (map (\<lambda>(x, y). y / x) nz) / real (length nz))),
      linregress_samples = (map fst valid, map snd valid)\<rparr>"
    for smaller larger :: int and valid :: "(real \<times> real) list"
  define raises where "raises pr =
     (case pr of (smaller, larger) \<Rightarrow>
        (case (map_of analyzed_df (movement_col smaller),
               map_of analyzed_df (movement_col larger)) of
           (Some (FloatS xs), Some (FloatS ys)) \<Rightarrow>
             5 \<le> length (both_present xs ys)
             \<and> (\<forall>v \<in> set (map fst (both_present xs ys)). v = fst (hd (both_present xs ys)))
         | _ \<Rightarrow> False))" for pr
  define G where "G pr =
     (case pr of (smaller, larger) \<Rightarrow>
        (case (map_of analyzed_df (movement_col smaller),
               map_of analyzed_df (movement_col larger)) of
           (Some (FloatS xs), Some (FloatS ys)) \<Rightarrow>
             (if length (both_present xs ys) < 5 then None
              else Some (row smaller larger (both_present xs ys)))
         | _ \<Rightarrow> None))" for pr
  have pair: "propagation_pair analyzed_df pr = (if raises pr then Inl ValueError else Inr (G pr))"
    if "pr \<in> set pairs" for pr
  proof -
    obtain a b where pr: "pr = (a, b)" by (cases pr)
    have ab: "a \<in> set (time_scales self)" "b \<in> set (time_scales self)"
      using that set_zip_tl [of a b "time_scales self"] unfolding pr pairs_def by blast+
    show ?thesis
    proof (cases "map_of analyzed_df (movement_col a)")
      case None
      then show ?thesis by (simp add: pr G_def raises_def Let_def)
    next
      case sa: (Some s)
      then obtain xs where xs: "map_of analyzed_df (movement_col a) = Some (FloatS xs)"
        using cols ab(1) by blast
      show ?thesis
      proof (cases "map_of analyzed_df (movement_col b)")
        case None
        then show ?thesis by (simp add: pr G_def raises_def Let_def xs)
      next
        case sb: (Some l)
        then obtain ys where ys: "map_of analyzed_df (movement_col b) = Some (FloatS ys)"
          using cols ab(2) by blast
        show ?thesis
          unfolding pr using propagation_pair_float [OF wf xs ys]
          by (simp add: G_def raises_def xs ys row_def Let_def not_less del: set_map)
      qed
    qed
  qed
  have eq: "(case G pr of None \<Rightarrow> [] | Some r \<Rightarrow> [r]) =
        (case pr of (smaller, larger) \<Rightarrow>
              case (map_of analyzed_df (movement_col smaller),
                    map_of analyzed_df (movement_col larger)) of
                (Some (FloatS xs), Some (FloatS ys)) \<Rightarrow>
                  (let valid = both_present xs ys
                   in if length valid < 5 then []
                      else [\<lparr>smaller_scale = smaller, larger_scale = larger, count = length valid,
                             pearsonr_samples = (map fst valid, map snd valid),
                             avg_growth_ratio =
                               np_round 4
                                 (case filter (\<lambda>(x, y). x \<noteq> 0) valid of
                                    [] \<Rightarrow> None
                                  | nz \<Rightarrow> Some (sum_list (map (\<lambda>(x, y). y / x) nz)
                                                   / real (length nz))),
                             linregress_samples = (map fst valid, map snd valid)\<rparr>])
              | _ \<Rightarrow> [])" for pr
    by (auto simp: G_def row_def Let_def split: prod.splits option.splits series.splits)
  have res: "analyze_propagation_effects self analyzed_df =
          (if \<exists>pr \<in> set pairs. raises pr then []
           else concat (map (\<lambda>pr. case G pr of None \<Rightarrow> [] | Some r \<Rightarrow> [r]) pairs))"
  proof (cases "\<exists>pr \<in> set pairs. raises pr")
    case True
    then have "\<exists>pr \<in> set pairs. isl (propagation_pair analyzed_df pr)"
      using pair by auto
    then have "isl (propagation_loop analyzed_df pairs [])"
      by (rule propagation_loop_raises)
    then show ?thesis
      using True
      by (auto simp: analyze_propagation_effects_def pairs_def [symmetric] split: sum.splits)
  next
    case False
    then have "\<forall>pr \<in> set pairs. propagation_pair analyzed_df pr = Inr (G pr)"
      using pair by auto
    then have "propagation_loop analyzed_df pairs [] =
          Inr ([] @ concat (map (\<lambda>pr. case G pr of None \<Rightarrow> [] | Some r \<Rightarrow> [r]) pairs))"
      by (rule propagation_loop_rows)
    then show ?thesis
      using False by (simp add: analyze_propagation_effects_def pairs_def [symmetric])
  qed
  have r: "(\<exists>pr \<in> S. raises pr) \<longleftrightarrow>
        (\<exists>(smaller, larger) \<in> S.
                 case (map_of analyzed_df (movement_col smaller),
                       map_of analyzed_df (movement_col larger)) of
                   (Some (FloatS xs), Some (FloatS ys)) \<Rightarrow>
                     5 \<le> length (both_present xs ys)
                     \<and> (\<forall>v \<in> set (map fst (both_present xs ys)). v = fst (hd (both_present xs ys)))
                 | _ \<Rightarrow> False)" for S
    unfolding raises_def by (simp add: case_prod_unfold)
  show ?thesis
    using res unfolding r eq pairs_def .
qed

lemma movement_cols:
  "movement_col 5 = ''post_5min_price_movement''"
  "movement_col 15 = ''post_15min_price_movement''"
  "movement_col 30 = ''post_30min_price_movement''"
  by code_simp+

text \<open>
  C7, as stated, fails: of these 5 rows only 4 have a non-zero value at the smaller
  scale, yet the pair is not skipped, its count is 5, and the row with the zero is among
  the samples given to the correlation and to the regression.
\<close>

theorem analyze_propagation_effects_zero_counterexample:
  "analyze_propagation_effects \<lparr>time_scales = [5, 15], reference_scale = 15\<rparr>
     [(''post_5min_price_movement'', FloatS [Some 0, Some 1, Some 2, Some 3, Some 4]),
      (''post_15min_price_movement'', FloatS [Some 1, Some 2, Some 3, Some 4, Some 5])]
   = [\<lparr>smaller_scale = 5, larger_scale = 15, count = 5,
        pearsonr_samples = ([0, 1, 2, 3, 4], [1, 2, 3, 4, 5]),
        avg_growth_ratio = Some (15208 / 10000),
        linregress_samples = ([0, 1, 2, 3, 4], [1, 2, 3, 4, 5])\<rparr>]"
  by code_simp

theorem analyze_propagation_effects_rows_witness:
  "analyze_propagation_effects \<lparr>time_scales = [5, 15, 30], reference_scale = 15\<rparr>
     [(''post_5min_price_movement'', FloatS [Some 1, Some 2, Some 3, Some 4, Some 5]),
      (''post_15min_price_movement'', FloatS [Some 2, Some 4, Some 6, Some 8, Some 10]),
      (''post_30min_price_movement'', FloatS [Some 3, None, Some 9, Some 12, Some 15])]
   = [\<lparr>smaller_scale = 5, larger_scale = 15, count = 5,
        pearsonr_samples = ([1, 2, 3, 4, 5], [2, 4, 6, 8, 10]),
        avg_growth_ratio = Some 2,
        linregress_samples = ([1, 2, 3, 4, 5], [2, 4, 6, 8, 10])\<rparr>]
   \<and> analyze_propagation_effects \<lparr>time_scales = [5, 15, 30], reference_scale = 15\<rparr>
     [(''post_5min_price_movement'', FloatS [Some 1, Some 2, Some 3, Some 4, Some 5]),
      (''post_15min_price_movement'', FloatS [Some 2, Some 2, Some 2, Some 2, Some 2]),
      (''post_30min_price_movement'', FloatS [Some 3, Some 6, Some 9, Some 12, Some 15])]
   = []"
proof
  show "analyze_propagation_effects \<lparr>time_scales = [5, 15, 30], reference_scale = 15\<rparr>
     [(''post_5min_price_movement'', FloatS [Some 1, Some 2, Some 3, Some 4, Some 5]),
      (''post_15min_price_movement'', FloatS [Some 2, Some 4, Some 6, Some 8, Some 10]),
      (''post_30min_price_movement'', FloatS [Some 3, None, Some 9, Some 12, Some 15])]
   = [\<lparr>smaller_scale = 5, larger_scale = 15, count = 5,
        pearsonr_samples = ([1, 2, 3, 4, 5], [2, 4, 6, 8, 10]),
        avg_growth_ratio = Some 2,
        linregress_samples = ([1, 2, 3, 4, 5], [2, 4, 6, 8, 10])\<rparr>]"
    using analyze_propagation_effects_rows
      [of "[(''post_5min_price_movement'', FloatS [Some 1, Some 2, Some 3, Some 4, Some 5]),
        (''post_15min_price_movement'', FloatS [Some 2, Some 4, Some 6, Some 8, Some 10]),
        (''post_30min_price_movement'', FloatS [Some 3, None, Some 9, Some 12, Some 15])]"
       "\<lparr>time_scales = [5, 15, 30], reference_scale = 15\<rparr>"]
    by (simp add: wf_frame_def nrows_def movement_cols both_present_def np_round_def
          round_half_even_def Let_def)
  show "analyze_propagation_effects \<lparr>time_scales = [5, 15, 30], reference_scale = 15\<rparr>
     [(''post_5min_price_movement'', FloatS [Some 1, Some 2, Some 3, Some 4, Some 5]),
      (''post_15min_price_movement'', FloatS [Some 2, Some 2, Some 2, Some 2, Some 2]),
      (''post_30min_price_movement'', FloatS [Some 3, Some 6, Some 9, Some 12, Some 15])]
   = []"
    using analyze_propagation_effects_rows
      [of "[(''post_5min_price_movement'', FloatS [Some 1, Some 2, Some 3, Some 4, Some 5]),
        (''post_15min_price_movement'', FloatS [Some 2, Some 2, Some 2, Some 2, Some 2]),
        (''post_30min_price_movement'', FloatS [Some 3, Some 6, Some 9, Some 12, Some 15])]"
       "\<lparr>time_scales = [5, 15, 30], reference_scale = 15\<rparr>"]
    by (simp add: wf_frame_def nrows_def movement_cols both_present_def)
qed

section \<open>Window extraction: the rows returned\<close>

text \<open>
  What \<open>extract_zigzag_window\<close> does return: the rows whose value in the time column
  lies in the closed interval \<open>[t0, t1]\<close>, both ends included. The time column is the
  first column whose name contains \<open>time\<close> or \<open>date\<close>, taken as it is when of
  datetime dtype and as \<open>pd.to_datetime\<close> converts it otherwise. When no such value
  lies in the interval, and on any table without rows, the result has no rows. The
  function is total: its handler turns every exception into the empty table (lemma
  \<open>extract_zigzag_window_fails_closed\<close> below).
\<close>

lemma extract_zigzag_window_closed_interval:
  assumes wf: "wf_frame zigzag_df"
  shows "(filter is_time_name (columns zigzag_df) = time_col # others
            \<and> map_of zigzag_df time_col = Some s
            \<and> (s = DatetimeS ts \<or> (\<forall>ts'. s \<noteq> DatetimeS ts') \<and> to_datetime conv s = Inr ts) \<longrightarrow>
          fst (extract_zigzag_window conv zigzag_df (Some t0) (Some t1)) =
            set_col zigzag_df time_col (DatetimeS ts)
          \<and> rows (snd (extract_zigzag_window conv zigzag_df (Some t0) (Some t1))) =
              filter (\<lambda>r. \<exists>t. map_of r time_col = Some (PTime (Some t)) \<and> t0 \<le> t \<and> t \<le> t1)
                (rows (set_col zigzag_df time_col (DatetimeS ts)))
          \<and> ((\<forall>t. Some t \<in> set ts \<longrightarrow> \<not> (t0 \<le> t \<and> t \<le> t1)) \<longrightarrow>
               nrows (snd (extract_zigzag_window conv zigzag_df (Some t0) (Some t1))) = 0))
       \<and> (nrows zigzag_df = 0 \<longrightarrow>
            nrows (snd (extract_zigzag_window conv zigzag_df (Some t0) (Some t1))) = 0)"
proof (intro conjI impI)
  assume "nrows zigzag_df = 0"
  then show "nrows (snd (extract_zigzag_window conv zigzag_df (Some t0) (Some t1))) = 0"
    using wf by (rule extract_zigzag_window_empty_input [rotated])
next
  assume h: "filter is_time_name (columns zigzag_df) = time_col # others
            \<and> map_of zigzag_df time_col = Some s
            \<and> (s = DatetimeS ts \<or> (\<forall>ts'. s \<noteq> DatetimeS ts') \<and> to_datetime conv s = Inr ts)"
  define df' where "df' = set_col zigzag_df time_col (DatetimeS ts)"
  have mem: "time_col \<in> set (columns zigzag_df)"
    using h map_of_columns by blast
  have len: "length ts = nrows zigzag_df"
  proof -
    have "slen s = nrows zigzag_df"
      using wf_frame_map_of [OF wf] h by blast
    moreover have "length ts = slen s"
      using h length_to_datetime by auto
    ultimately show ?thesis by simp
  qed
  have wf': "wf_frame df'"
    unfolding df'_def using wf mem len by (intro wf_frame_set_col) simp_all
  have col': "map_of df' time_col = Some (DatetimeS ts)"
    by (simp add: df'_def map_of_set_col)
  have res: "extract_zigzag_window conv zigzag_df (Some t0) (Some t1) =
               (df', select (map (in_window (Some t0) (Some t1)) ts) df')"
  proof (cases "s = DatetimeS ts")
    case True
    then have "df' = zigzag_df"
      using h by (simp add: df'_def set_col_same)
    then show ?thesis
      using h True by (simp add: extract_zigzag_window_def)
  next
    case False
    then have "\<forall>ts'. s \<noteq> DatetimeS ts'" "to_datetime conv s = Inr ts"
      using h by blast+
    then show ?thesis
      using h by (cases s) (simp_all add: extract_zigzag_window_def Let_def df'_def)
  qed
  show "fst (extract_zigzag_window conv zigzag_df (Some t0) (Some t1)) =
          set_col zigzag_df time_col (DatetimeS ts)"
    by (simp add: res df'_def)
  show "rows (snd (extract_zigzag_window conv zigzag_df (Some t0) (Some t1))) =
          filter (\<lambda>r. \<exists>t. map_of r time_col = Some (PTime (Some t)) \<and> t0 \<le> t \<and> t \<le> t1)
            (rows (set_col zigzag_df time_col (DatetimeS ts)))"
    using rows_select_window [OF wf' col', of t0 t1] by (simp add: res df'_def)
  assume none: "\<forall>t. Some t \<in> set ts \<longrightarrow> \<not> (t0 \<le> t \<and> t \<le> t1)"
  have "pick (map (in_window (Some t0) (Some t1)) ts) [0..<nrows df'] = []"
    using none by (intro pick_all_False) (auto simp: in_window_Some)
  then show "nrows (snd (extract_zigzag_window conv zigzag_df (Some t0) (Some t1))) = 0"
    by (simp add: res nrows_select [OF wf'])
qed

lemma extract_zigzag_window_fails_closed:
  assumes "filter is_time_name (columns zigzag_df) = []
           \<or> (\<exists>time_col others s e. filter is_time_name (columns zigzag_df) = time_col # others
                 \<and> map_of zigzag_df time_col = Some s \<and> (\<forall>ts. s \<noteq> DatetimeS ts)
                 \<and> to_datetime conv s = Inl e)"
  shows "extract_zigzag_window conv zigzag_df start_time end_time = (zigzag_df, [])"
  using assms
  by (auto simp: extract_zigzag_window_def split: series.splits)

lemma extract_zigzag_window_closed_interval_example:
  "rows (snd (extract_zigzag_window epoch_ns
          [(''time'', DatetimeS [Some 0, Some 120000000000, Some 240000000000]),
           (''price'', FloatS [Some 1800, Some 1805, Some 1798])]
          (Some 0) (Some 120000000000)))
     = [[(''time'', PTime (Some 0)), (''price'', PNum (Fin 1800))],
        [(''time'', PTime (Some 120000000000)), (''price'', PNum (Fin 1805))]]"
proof -
  let ?df = "[(''time'', DatetimeS [Some 0, Some 120000000000, Some 240000000000]),
              (''price'', FloatS [Some 1800, Some 1805, Some 1798])]"
  have wf: "wf_frame ?df"
    by (simp add: wf_frame_def nrows_def)
  have tc: "filter is_time_name (columns ?df) = [''time'']"
    by (simp add: columns_def is_time_name_def lower_def lower_char_def)
  have "rows (snd (extract_zigzag_window epoch_ns ?df (Some 0) (Some 120000000000))) =
          filter (\<lambda>r. \<exists>t. map_of r ''time'' = Some (PTime (Some t)) \<and> 0 \<le> t \<and> t \<le> 120000000000)
            (rows ?df)"
    using extract_zigzag_window_closed_interval
            [OF wf, of "''time''" "[]" "DatetimeS [Some 0, Some 120000000000, Some 240000000000]"
               "[Some 0, Some 120000000000, Some 240000000000]" epoch_ns 0 120000000000] tc
    by simp
  also have "\<dots> = [[(''time'', PTime (Some 0)), (''price'', PNum (Fin 1800))],
        [(''time'', PTime (Some 120000000000)), (''price'', PNum (Fin 1805))]]"
    by (simp add: rows_def row_at_def nrows_def upt_rec pnum_def)
  finally show ?thesis .
qed

text \<open>
  C9. The claim is that \<open>extract_zigzag_window\<close> returns exactly the pivots whose
  timestamp lies in \<open>[t0, t1]\<close>. On a pivot table as the repository builds it (the
  loaders and the generator of \<^verbatim>\<open>test_analysis.py\<close>) it returns none of them. The
  first column whose name contains \<open>time\<close> is \<open>start_time_utc_seconds\<close>, a column of
  integers, standing before the timestamps \<open>start_time_dt\<close>; \<open>pd.to_datetime\<close> is
  called on it without \<open>unit='s'\<close> and reads the seconds as nanoseconds since the
  epoch, all within the first two seconds of 1970. For the window from the first
  pivot's timestamp to the second's, in 2023, the result has no rows, although two
  pivots have their \<open>start_time_dt\<close> in it; and the seconds column of the table given
  is overwritten.
\<close>

theorem extract_zigzag_window_seconds_column_returns_nothing:
  "nrows (snd (extract_zigzag_window epoch_ns
        [(''start_time_utc_seconds'', IntS [1700000000, 1700000060, 1700000120]),
         (''start_time_dt'',
            DatetimeS [Some 1700000000000000000, Some 1700000060000000000, Some 1700000120000000000]),
         (''price'', FloatS [Some 1800, Some 1805, Some 1798])]
        (Some 1700000000000000000) (Some 1700000060000000000))) = 0
   \<and> length (filter (\<lambda>t. 1700000000000000000 \<le> t \<and> t \<le> 1700000060000000000)
               [1700000000000000000, 1700000060000000000, 1700000120000000000 :: int]) = 2
   \<and> fst (extract_zigzag_window epoch_ns
        [(''start_time_utc_seconds'', IntS [1700000000, 1700000060, 1700000120]),
         (''start_time_dt'',
            DatetimeS [Some 1700000000000000000, Some 1700000060000000000, Some 1700000120000000000]),
         (''price'', FloatS [Some 1800, Some 1805, Some 1798])]
        (Some 1700000000000000000) (Some 1700000060000000000))
     = [(''start_time_utc_seconds'', DatetimeS [Some 1700000000, Some 1700000060, Some 1700000120]),
        (''start_time_dt'',
            DatetimeS [Some 1700000000000000000, Some 1700000060000000000, Some 1700000120000000000]),
        (''price'', FloatS [Some 1800, Some 1805, Some 1798])]"
  by (simp add: extract_zigzag_window_def columns_def is_time_name_def lower_def lower_char_def
        to_datetime_def Let_def select_def pick_def in_window_def nrows_def)

end
